theory Spec2Isabelle
  imports Main "HOL-Library.Sublist"
begin

section \<open>Strings as Python sees them\<close>

text \<open>
  A Python \<open>str\<close> is modelled as the list of bytes of its UTF-8 encoding
  (\<^typ>\<open>string\<close>). The literals of the source that are not ASCII are spelled out
  byte by byte.
\<close>

text \<open>\<open>s.split(c)\<close> for a separator of one character: never the empty list.\<close>

fun split_char :: "char \<Rightarrow> string \<Rightarrow> string list" where
  "split_char c [] = [[]]"
| "split_char c (x # xs) =
     (if x = c then [] # split_char c xs
      else (case split_char c xs of
              [] \<Rightarrow> [[x]]
            | p # ps \<Rightarrow> (x # p) # ps))"

text \<open>\<open>s.startswith(p)\<close> is \<^const>\<open>prefix\<close>, \<open>p in s\<close> is \<^const>\<open>sublist\<close>.\<close>

definition startswith :: "string \<Rightarrow> string \<Rightarrow> bool" where
  "startswith s p = prefix p s"

definition contains :: "string \<Rightarrow> string \<Rightarrow> bool" where
  "contains s p = sublist p s"

text \<open>\<open>str(n)\<close> for an integer.\<close>

definition digit_char :: "nat \<Rightarrow> char" where
  "digit_char n = char_of (48 + n)"

fun str_nat :: "nat \<Rightarrow> string" where
  "str_nat n = (if n < 10 then [digit_char n] else str_nat (n div 10) @ [digit_char (n mod 10)])"

declare str_nat.simps [simp del]

definition str_int :: "int \<Rightarrow> string" where
  "str_int i = (if i < 0 then CHR ''-'' # str_nat (nat (- i)) else str_nat (nat i))"

subsection \<open>\<open>urllib.parse.urlencode\<close>\<close>

text \<open>
  Modelled from the documentation of the Python standard library, which is not part of
  the repository: \<open>urlencode(d, doseq=True)\<close> on a dictionary of strings joins
  \<open>quote_plus(k) + '=' + quote_plus(v)\<close> with \<open>&\<close>, in insertion order;
  \<open>quote_plus\<close> keeps letters, digits and \<open>_.-~\<close>, turns a space into \<open>+\<close> and
  every other byte into \<open>%XX\<close> (upper-case hexadecimal).
\<close>

definition is_unreserved :: "char \<Rightarrow> bool" where
  "is_unreserved c =
     (let n = (of_char c :: nat) in
        (48 \<le> n \<and> n \<le> 57) \<or> (65 \<le> n \<and> n \<le> 90) \<or> (97 \<le> n \<and> n \<le> 122)
        \<or> c = CHR ''_'' \<or> c = CHR ''.'' \<or> c = CHR ''-'' \<or> c = CHR ''~'')"

definition hex_digit :: "nat \<Rightarrow> char" where
  "hex_digit n = (if n < 10 then char_of (48 + n) else char_of (55 + n))"

definition quote_byte :: "char \<Rightarrow> string" where
  "quote_byte c =
     (if is_unreserved c then [c]
      else if c = CHR '' '' then ''+''
      else [CHR ''%'', hex_digit ((of_char c :: nat) div 16), hex_digit ((of_char c :: nat) mod 16)])"

definition quote_plus :: "string \<Rightarrow> string" where
  "quote_plus s = concat (map quote_byte s)"

fun join_with :: "char \<Rightarrow> string list \<Rightarrow> string" where
  "join_with c [] = []"
| "join_with c [p] = p"
| "join_with c (p # q # ps) = p @ c # join_with c (q # ps)"

definition encode_pair :: "string \<times> string \<Rightarrow> string" where
  "encode_pair kv = quote_plus (fst kv) @ CHR ''='' # quote_plus (snd kv)"

definition urlencode :: "(string \<times> string) list \<Rightarrow> string" where
  "urlencode ps = join_with CHR ''&'' (map encode_pair ps)"

section \<open>Configuration\<close>

text \<open>
  The configuration is the JSON document \<open>config.json\<close>, typed as the specification
  of the external interfaces gives it. A filter is \<open>None\<close> when its key is absent.
  The tests \<open>if filters.get(k):\<close> of the source are Python's truthiness: false for
  an absent key, the empty string, the empty list and the integer zero. The model
  writes each test out at its place; \<open>truthy_str\<close>, \<open>truthy_int\<close> and
  \<open>truthy_list\<close> name the same tests for the statements below.
\<close>

record search_filters =
  keywords_cfg :: "string list option"
  salary_min :: "int option"
  area :: "string option"
  experience :: "string option"
  employment :: "string option"
  schedule :: "string option"

record application_settings =
  max_applications_per_day :: int
  cover_letter :: string
  skip_already_applied :: bool

record config =
  filters :: search_filters
  settings :: application_settings

definition truthy_str :: "string option \<Rightarrow> bool" where
  "truthy_str v = (case v of None \<Rightarrow> False | Some s \<Rightarrow> s \<noteq> [])"

definition truthy_int :: "int option \<Rightarrow> bool" where
  "truthy_int v = (case v of None \<Rightarrow> False | Some n \<Rightarrow> n \<noteq> 0)"

definition truthy_list :: "'a list option \<Rightarrow> bool" where
  "truthy_list v = (case v of None \<Rightarrow> False | Some xs \<Rightarrow> xs \<noteq> [])"

section \<open>Exceptions\<close>

datatype exn = TimeoutException | NoSuchElementException | IndexError | WebDriverException

section \<open>The search URL: \<open>_build_search_url\<close>\<close>

definition moskva :: string where
  "moskva = [CHR 0xD0, CHR 0x9C, CHR 0xD0, CHR 0xBE, CHR 0xD1, CHR 0x81,
             CHR 0xD0, CHR 0xBA, CHR 0xD0, CHR 0xB2, CHR 0xD0, CHR 0xB0]"

definition sankt_peterburg :: string where
  "sankt_peterburg =
     [CHR 0xD0, CHR 0xA1, CHR 0xD0, CHR 0xB0, CHR 0xD0, CHR 0xBD, CHR 0xD0, CHR 0xBA,
      CHR 0xD1, CHR 0x82, CHR ''-'', CHR 0xD0, CHR 0x9F, CHR 0xD0, CHR 0xB5, CHR 0xD1, CHR 0x82,
      CHR 0xD0, CHR 0xB5, CHR 0xD1, CHR 0x80, CHR 0xD0, CHR 0xB1, CHR 0xD1, CHR 0x83,
      CHR 0xD1, CHR 0x80, CHR 0xD0, CHR 0xB3]"

definition area_map :: "(string \<times> string) list" where
  "area_map = [(moskva, ''1''), (sankt_peterburg, ''2'')]"

definition exp_map :: "(string \<times> string) list" where
  "exp_map = [(''noExperience'', ''noExperience''), (''between1And3'', ''between1And3''),
              (''between3And6'', ''between3And6''), (''moreThan6'', ''moreThan6'')]"

definition employment_map :: "(string \<times> string) list" where
  "employment_map = [(''full'', ''full''), (''part'', ''part''), (''project'', ''project''),
                     (''volunteer'', ''volunteer''), (''probation'', ''probation'')]"

definition schedule_map :: "(string \<times> string) list" where
  "schedule_map = [(''fullDay'', ''fullDay''), (''shift'', ''shift''), (''flexible'', ''flexible''),
                   (''remote'', ''remote''), (''flyInFlyOut'', ''flyInFlyOut'')]"

text \<open>\<open>d.get(k, default)\<close> on a dictionary literal.\<close>

definition dict_get :: "(string \<times> string) list \<Rightarrow> string \<Rightarrow> string \<Rightarrow> string" where
  "dict_get d k dflt = (case map_of d k of None \<Rightarrow> dflt | Some v \<Rightarrow> v)"

text \<open>
  The dictionary \<open>params_dict\<close>, as the list of its items in insertion order. Every key
  is inserted at most once, so no insertion overwrites an earlier one.
\<close>

definition first_keyword :: "search_filters \<Rightarrow> (string \<times> string) list" where
  "first_keyword f =
     (case keywords_cfg f of
        None \<Rightarrow> []
      | Some ks \<Rightarrow> (case ks of [] \<Rightarrow> [] | k # _ \<Rightarrow> [(''text'', k)]))"

definition text_param :: "search_filters \<Rightarrow> string option \<Rightarrow> (string \<times> string) list" where
  "text_param f keyword =
     (case keyword of
        None \<Rightarrow> first_keyword f
      | Some k \<Rightarrow> if k \<noteq> [] then [(''text'', k)] else first_keyword f)"

definition salary_param :: "search_filters \<Rightarrow> (string \<times> string) list" where
  "salary_param f =
     (case salary_min f of
        None \<Rightarrow> []
      | Some n \<Rightarrow> if n \<noteq> 0 then [(''salary'', str_int n)] else [])"

definition area_param :: "search_filters \<Rightarrow> (string \<times> string) list" where
  "area_param f =
     (case area f of
        None \<Rightarrow> []
      | Some a \<Rightarrow> if a \<noteq> [] then [(''area'', dict_get area_map a ''1'')] else [])"

definition enum_param ::
  "string \<Rightarrow> (string \<times> string) list \<Rightarrow> string option \<Rightarrow> (string \<times> string) list" where
  "enum_param key m v =
     (case v of
        None \<Rightarrow> []
      | Some x \<Rightarrow>
          if x \<noteq> []
          then (let e = dict_get m x [] in if e \<noteq> [] then [(key, e)] else [])
          else [])"

definition params_dict :: "search_filters \<Rightarrow> string option \<Rightarrow> (string \<times> string) list" where
  "params_dict f keyword =
     text_param f keyword @ salary_param f @ area_param f
     @ enum_param ''experience'' exp_map (experience f)
     @ enum_param ''employment'' employment_map (employment f)
     @ enum_param ''schedule'' schedule_map (schedule f)"

definition base_url :: string where
  "base_url = ''https://hh.ru/search/vacancy''"

text \<open>
  The log line before the \<open>return\<close> evaluates
  \<open>keyword or filters.get('keywords', [''])[0]\<close>: with no keyword and an empty
  \<open>keywords\<close> list the index raises \<open>IndexError\<close>.
\<close>

definition build_search_url :: "search_filters \<Rightarrow> string option \<Rightarrow> exn + string" where
  "build_search_url f keyword =
     (let url = base_url @ CHR ''?'' # urlencode (params_dict f keyword)
      in if (keyword = None \<or> keyword = Some []) \<and> keywords_cfg f = Some []
         then Inl IndexError else Inr url)"

section \<open>The listing identifier\<close>

text \<open>\<open>vacancy_url.split('/')[-1].split('?')[0]\<close>\<close>

definition vacancy_id_of :: "string \<Rightarrow> string" where
  "vacancy_id_of vacancy_url = hd (split_char CHR ''?'' (last (split_char CHR ''/'' vacancy_url)))"

section \<open>The Page Interaction Layer\<close>

text \<open>
  The browser is an external collaborator. Its state is an abstract type \<open>'w\<close> and the
  Selenium calls the program makes are the fields of a record of operations on it; every
  call but the read of \<open>current_url\<close> may raise and may change the browser. Theorems
  that quantify over the record hold for every browser and every web site behind it.
  Waiting (\<open>time.sleep\<close>, the time a \<open>WebDriverWait\<close> takes) and logging do not
  change the state and are left out; a wait that runs out raises
  \<^const>\<open>TimeoutException\<close>. File-system errors of the ledger file and the
  operator's interrupt are not modelled.
\<close>

type_synonym elem = nat

type_synonym ('s, 'a) prog = "'s \<Rightarrow> (exn + 'a) \<times> 's"

record 'w webdriver =
  launch :: "('w, unit) prog"
  configure :: "('w, unit) prog"
  login :: "'w \<Rightarrow> bool \<times> 'w"
  quit :: "('w, unit) prog"
  current_url :: "'w \<Rightarrow> string"
  navigate :: "string \<Rightarrow> ('w, unit) prog"
  wait_clickable :: "string \<Rightarrow> ('w, elem) prog"
  wait_present :: "string \<Rightarrow> ('w, elem) prog"
  find_element :: "string \<Rightarrow> ('w, elem) prog"
  find_elements :: "string \<Rightarrow> ('w, elem list) prog"
  execute_script :: "string \<Rightarrow> elem \<Rightarrow> ('w, unit) prog"
  click :: "elem \<Rightarrow> ('w, unit) prog"
  is_displayed :: "elem \<Rightarrow> ('w, bool) prog"
  clear :: "elem \<Rightarrow> ('w, unit) prog"
  send_keys :: "elem \<Rightarrow> string \<Rightarrow> ('w, unit) prog"
  get_attribute :: "elem \<Rightarrow> string \<Rightarrow> ('w, string option) prog"

text \<open>
  \<open>navigate\<close> is \<open>driver.get(url)\<close>; \<open>wait_clickable\<close> and \<open>wait_present\<close> are
  \<open>WebDriverWait(...).until\<close> on \<open>element_to_be_clickable\<close> and
  \<open>presence_of_element_located\<close> for a CSS selector; \<open>launch\<close> is the constructor
  \<open>webdriver.Chrome\<close> and \<open>configure\<close> the three calls that follow it in
  \<open>_setup_driver\<close>; \<open>login\<close> stands for \<open>_login\<close>, which catches every exception
  and answers with a boolean.
\<close>

section \<open>The program state: class \<open>HHAutoApply\<close>\<close>

text \<open>
  \<open>applied_file\<close> is the list of lines appended to \<open>applied_vacancies.txt\<close>;
  \<open>driver_set\<close> says that \<open>self.driver\<close> is not \<open>None\<close>.
\<close>

record 'w hh =
  applied_count :: nat
  skipped_count :: nat
  error_count :: nat
  applied_vacancies :: "string set"
  applied_file :: "string list"
  driver_set :: bool
  browser :: 'w

subsection \<open>Sequencing, exceptions\<close>

definition ok :: "'a \<Rightarrow> ('s, 'a) prog" where
  "ok a = (\<lambda>s. (Inr a, s))"

definition raise :: "exn \<Rightarrow> ('s, 'a) prog" where
  "raise e = (\<lambda>s. (Inl e, s))"

definition then_do :: "('s, 'a) prog \<Rightarrow> ('a \<Rightarrow> ('s, 'b) prog) \<Rightarrow> ('s, 'b) prog" where
  "then_do m f = (\<lambda>s. case m s of (Inl e, s') \<Rightarrow> (Inl e, s') | (Inr a, s') \<Rightarrow> f a s')"

text \<open>\<open>try: m except E: h\<close>, the handler choosing by the exception what it catches.\<close>

definition try_except :: "('s, 'a) prog \<Rightarrow> (exn \<Rightarrow> ('s, 'a) prog) \<Rightarrow> ('s, 'a) prog" where
  "try_except m h = (\<lambda>s. case m s of (Inl e, s') \<Rightarrow> h e s' | (Inr a, s') \<Rightarrow> (Inr a, s'))"

definition on_browser :: "('w, 'a) prog \<Rightarrow> ('w hh, 'a) prog" where
  "on_browser m = (\<lambda>s. case m (browser s) of (r, w) \<Rightarrow> (r, s\<lparr>browser := w\<rparr>))"

definition modify :: "('s \<Rightarrow> 's) \<Rightarrow> ('s, unit) prog" where
  "modify f = (\<lambda>s. (Inr (), f s))"

subsection \<open>\<open>_save_applied_vacancy\<close>\<close>

definition save_applied_vacancy :: "string \<Rightarrow> ('w hh, unit) prog" where
  "save_applied_vacancy vacancy_id =
     modify (\<lambda>s. s\<lparr>applied_vacancies := insert vacancy_id (applied_vacancies s),
                    applied_file := applied_file s @ [vacancy_id]\<rparr>)"

definition count_skipped :: "('w hh, unit) prog" where
  "count_skipped = modify (\<lambda>s. s\<lparr>skipped_count := skipped_count s + 1\<rparr>)"

definition count_error :: "('w hh, unit) prog" where
  "count_error = modify (\<lambda>s. s\<lparr>error_count := error_count s + 1\<rparr>)"

definition count_applied :: "('w hh, unit) prog" where
  "count_applied = modify (\<lambda>s. s\<lparr>applied_count := applied_count s + 1\<rparr>)"

section \<open>The Listing Processor: \<open>_apply_to_vacancy\<close>\<close>

definition is_response_form :: "string \<Rightarrow> bool" where
  "is_response_form u =
     (contains u ''vacancy_response'' \<or> contains u ''/applicant/vacancy_response'')"

definition apply_selectors :: "string list" where
  "apply_selectors =
     [''button[data-qa='' @ [CHR 0x27] @ ''vacancy-response-link-top'' @ [CHR 0x27] @ '']'',
      ''a[data-qa='' @ [CHR 0x27] @ ''vacancy-response-link-top'' @ [CHR 0x27] @ '']'',
      ''button[data-qa='' @ [CHR 0x27] @ ''vacancy-response-button'' @ [CHR 0x27] @ '']'',
      ''.bloko-button[data-qa*='' @ [CHR 0x27] @ ''response'' @ [CHR 0x27] @ '']'',
      ''a.bloko-button[href*='' @ [CHR 0x27] @ ''response'' @ [CHR 0x27] @ '']'']"

definition already_applied_selector :: string where
  "already_applied_selector =
     ''[data-qa*='' @ [CHR 0x27] @ ''already-applied'' @ [CHR 0x27]
       @ ''], .vacancy-response-link-already-applied''"

definition cookies_banner_selector :: string where
  "cookies_banner_selector =
     ''[data-qa='' @ [CHR 0x27] @ ''cookies-policy-informer'' @ [CHR 0x27]
       @ ''], .cookies-policy-informer''"

definition cookies_accept_selector :: string where
  "cookies_accept_selector =
     ''button[data-qa='' @ [CHR 0x27] @ ''cookies-policy-informer-accept'' @ [CHR 0x27]
       @ ''], .cookies-policy-informer-accept''"

definition letter_selector :: string where
  "letter_selector =
     ''textarea[data-qa='' @ [CHR 0x27] @ ''vacancy-response-popup-form-letter-input''
       @ [CHR 0x27] @ '']''"

definition submit_selector :: string where
  "submit_selector =
     ''button[data-qa='' @ [CHR 0x27] @ ''vacancy-response-submit-popup'' @ [CHR 0x27] @ '']''"

definition js_scroll_into_view :: string where
  "js_scroll_into_view = ''arguments[0].scrollIntoView(true);''"

definition js_scroll_center :: string where
  "js_scroll_center =
     ''arguments[0].scrollIntoView({block: '' @ [CHR 0x27] @ ''center'' @ [CHR 0x27] @ ''});''"

definition js_click :: string where
  "js_click = ''arguments[0].click();''"

definition js_hide :: string where
  "js_hide = ''arguments[0].style.display='' @ [CHR 0x27] @ ''none'' @ [CHR 0x27] @ '';''"

text \<open>The return to the search page that ends every branch but the ledger skip.\<close>

definition return_to_search :: "'w webdriver \<Rightarrow> string \<Rightarrow> bool \<Rightarrow> ('w hh, bool) prog" where
  "return_to_search d search_page_url result =
     then_do (on_browser (navigate d search_page_url)) (\<lambda>_. ok result)"

text \<open>
  The loop over \<open>apply_selectors\<close>: the first selector whose wait yields an element
  wins, a \<open>TimeoutException\<close> moves on to the next, any other exception leaves the loop.
\<close>

fun find_apply_button :: "'w webdriver \<Rightarrow> string list \<Rightarrow> ('w hh, elem option) prog" where
  "find_apply_button d [] s = (Inr None, s)"
| "find_apply_button d (selector # selectors) s =
     (case on_browser (wait_clickable d selector) s of
        (Inr apply_button, s') \<Rightarrow> (Inr (Some apply_button), s')
      | (Inl e, s') \<Rightarrow>
          if e = TimeoutException then find_apply_button d selectors s' else (Inl e, s'))"

text \<open>No apply control: the check for the already-applied marker.\<close>

definition no_apply_button :: "'w webdriver \<Rightarrow> string \<Rightarrow> string \<Rightarrow> ('w hh, bool) prog" where
  "no_apply_button d vacancy_id search_page_url =
     try_except
       (then_do (on_browser (find_element d already_applied_selector)) (\<lambda>_.
        then_do (save_applied_vacancy vacancy_id) (\<lambda>_.
        then_do count_skipped (\<lambda>_.
        return_to_search d search_page_url False))))
       (\<lambda>e. if e = NoSuchElementException
            then then_do count_error (\<lambda>_. return_to_search d search_page_url False)
            else raise e)"

text \<open>The cookie banner.\<close>

definition dismiss_cookies :: "'w webdriver \<Rightarrow> ('w hh, unit) prog" where
  "dismiss_cookies d =
     try_except
       (then_do (on_browser (find_element d cookies_banner_selector)) (\<lambda>cookies_banner.
        then_do (on_browser (is_displayed d cookies_banner)) (\<lambda>displayed.
          if displayed
          then try_except
                 (then_do (on_browser (find_element d cookies_accept_selector)) (\<lambda>accept_button.
                  on_browser (execute_script d js_click accept_button)))
                 (\<lambda>_. on_browser (execute_script d js_hide cookies_banner))
          else ok ())))
       (\<lambda>e. if e = NoSuchElementException then ok () else raise e)"

text \<open>The cover letter.\<close>

definition fill_cover_letter :: "'w webdriver \<Rightarrow> config \<Rightarrow> ('w hh, unit) prog" where
  "fill_cover_letter d cfg =
     try_except
       (then_do (on_browser (wait_present d letter_selector)) (\<lambda>cover_letter_textarea.
        then_do (on_browser (clear d cover_letter_textarea)) (\<lambda>_.
        on_browser (send_keys d cover_letter_textarea (cover_letter (settings cfg))))))
       (\<lambda>e. if e = TimeoutException then ok () else raise e)"

text \<open>
  The confirmation. The handler of \<open>TimeoutException\<close> guards the whole block, the
  bookkeeping and the return to the search page included.
\<close>

definition record_applied :: "'w webdriver \<Rightarrow> string \<Rightarrow> string \<Rightarrow> ('w hh, bool) prog" where
  "record_applied d vacancy_id search_page_url =
     then_do (save_applied_vacancy vacancy_id) (\<lambda>_.
     then_do count_applied (\<lambda>_.
     return_to_search d search_page_url True))"

definition confirm_response :: "'w webdriver \<Rightarrow> string \<Rightarrow> string \<Rightarrow> ('w hh, bool) prog" where
  "confirm_response d vacancy_id search_page_url =
     try_except
       (then_do (on_browser (wait_present d submit_selector)) (\<lambda>submit_button.
        then_do (on_browser (execute_script d js_scroll_center submit_button)) (\<lambda>_.
        then_do (try_except (on_browser (click d submit_button))
                   (\<lambda>_. on_browser (execute_script d js_click submit_button))) (\<lambda>_.
        record_applied d vacancy_id search_page_url))))
       (\<lambda>e. if e = TimeoutException
            then record_applied d vacancy_id search_page_url
            else raise e)"

text \<open>From the click on the apply control to the end of the \<open>try\<close> block.\<close>

definition click_and_submit ::
  "'w webdriver \<Rightarrow> config \<Rightarrow> string \<Rightarrow> string \<Rightarrow> elem \<Rightarrow> ('w hh, bool) prog" where
  "click_and_submit d cfg vacancy_id search_page_url apply_button =
     then_do (on_browser (execute_script d js_scroll_into_view apply_button)) (\<lambda>_.
     then_do (on_browser (click d apply_button)) (\<lambda>_.
     (\<lambda>s. if is_response_form (current_url d (browser s))
          then then_do count_skipped (\<lambda>_. return_to_search d search_page_url False) s
          else then_do (dismiss_cookies d) (\<lambda>_.
               then_do (fill_cover_letter d cfg) (\<lambda>_.
               confirm_response d vacancy_id search_page_url)) s)))"

text \<open>After the listing was opened.\<close>

definition process_opened ::
  "'w webdriver \<Rightarrow> config \<Rightarrow> string \<Rightarrow> string \<Rightarrow> ('w hh, bool) prog" where
  "process_opened d cfg vacancy_id search_page_url =
     (\<lambda>s. if is_response_form (current_url d (browser s))
          then then_do count_skipped (\<lambda>_. return_to_search d search_page_url False) s
          else then_do (find_apply_button d apply_selectors) (\<lambda>apply_button.
                 case apply_button of
                   None \<Rightarrow> no_apply_button d vacancy_id search_page_url
                 | Some b \<Rightarrow> click_and_submit d cfg vacancy_id search_page_url b) s)"

text \<open>The body of the outer \<open>try\<close>.\<close>

definition apply_body ::
  "'w webdriver \<Rightarrow> config \<Rightarrow> string \<Rightarrow> string \<Rightarrow> ('w hh, bool) prog" where
  "apply_body d cfg vacancy_url search_page_url =
     (let vacancy_id = vacancy_id_of vacancy_url
      in (\<lambda>s. if skip_already_applied (settings cfg) \<and> vacancy_id \<in> applied_vacancies s
              then then_do count_skipped (\<lambda>_. ok False) s
              else then_do (on_browser (navigate d vacancy_url)) (\<lambda>_.
                   process_opened d cfg vacancy_id search_page_url) s))"

text \<open>
  \<open>search_page_url or self.driver.current_url\<close>, evaluated before the \<open>try\<close>.
\<close>

definition return_location :: "'w webdriver \<Rightarrow> string option \<Rightarrow> 'w hh \<Rightarrow> string" where
  "return_location d search_page_url s =
     (case search_page_url of
        Some u \<Rightarrow> if u \<noteq> [] then u else current_url d (browser s)
      | None \<Rightarrow> current_url d (browser s))"

text \<open>
  The whole method: the outer handler counts an error, tries the return to the search
  page and swallows what that raises. The method itself never raises.
\<close>

definition apply_to_vacancy ::
  "'w webdriver \<Rightarrow> config \<Rightarrow> string \<Rightarrow> string option \<Rightarrow> 'w hh \<Rightarrow> bool \<times> 'w hh" where
  "apply_to_vacancy d cfg vacancy_url search_page_url s =
     (let r = return_location d search_page_url s
      in case apply_body d cfg vacancy_url r s of
           (Inr result, s') \<Rightarrow> (result, s')
         | (Inl e, s') \<Rightarrow>
             (case then_do count_error (\<lambda>_. on_browser (navigate d r)) s' of
                (_, s'') \<Rightarrow> (False, s'')))"

section \<open>The result page: \<open>_get_vacancy_links\<close>\<close>

definition primary_selector :: string where
  "primary_selector = ''a[data-qa='' @ [CHR 0x27] @ ''serp-item__title'' @ [CHR 0x27] @ '']''"

definition href_selector :: string where
  "href_selector = ''a[href^='' @ [CHR 0x27] @ ''https://hh.ru/vacancy/'' @ [CHR 0x27] @ '']''"

definition serp_href_selector :: string where
  "serp_href_selector =
     ''a[href*='' @ [CHR 0x27] @ ''/vacancy/'' @ [CHR 0x27] @ ''][data-qa*='' @ [CHR 0x27]
       @ ''serp'' @ [CHR 0x27] @ '']''"

definition alternative_selectors :: "string list" where
  "alternative_selectors = [href_selector, serp_href_selector]"

text \<open>The loop over the alternative selectors; its bare \<open>except\<close> swallows everything.\<close>

fun find_alternative_cards :: "'w webdriver \<Rightarrow> string list \<Rightarrow> 'w \<Rightarrow> elem list \<times> 'w" where
  "find_alternative_cards d [] w = ([], w)"
| "find_alternative_cards d (selector # selectors) w =
     (case find_elements d selector w of
        (Inr found_cards, w') \<Rightarrow>
          if found_cards \<noteq> [] then (found_cards, w') else find_alternative_cards d selectors w'
      | (Inl _, w') \<Rightarrow> find_alternative_cards d selectors w')"

definition find_cards :: "'w webdriver \<Rightarrow> ('w, elem list) prog" where
  "find_cards d =
     try_except
       (then_do (wait_present d primary_selector) (\<lambda>_. find_elements d primary_selector))
       (\<lambda>e. if e = TimeoutException
            then (\<lambda>w. case find_alternative_cards d alternative_selectors w of
                        (cards, w') \<Rightarrow> (Inr cards, w'))
            else raise e)"

text \<open>
  The loop over the cards, with its two accumulators \<open>seen_links\<close> and
  \<open>vacancy_links\<close>. An exception while a card is read skips the card.
\<close>

fun collect_links ::
  "'w webdriver \<Rightarrow> elem list \<Rightarrow> string set \<Rightarrow> string list \<Rightarrow> 'w \<Rightarrow> string list \<times> 'w" where
  "collect_links d [] seen_links vacancy_links w = (vacancy_links, w)"
| "collect_links d (card_elem # cards) seen_links vacancy_links w =
     (case get_attribute d card_elem ''href'' w of
        (Inl _, w') \<Rightarrow> collect_links d cards seen_links vacancy_links w'
      | (Inr None, w') \<Rightarrow> collect_links d cards seen_links vacancy_links w'
      | (Inr (Some href), w') \<Rightarrow>
          if href = [] then collect_links d cards seen_links vacancy_links w'
          else (let link = (if startswith href ''/vacancy/'' then ''https://hh.ru'' @ href else href)
                in if contains link ''/vacancy/''
                   then (let clean_link = hd (split_char CHR ''?'' link)
                         in if clean_link \<notin> seen_links
                            then collect_links d cards (insert clean_link seen_links)
                                   (vacancy_links @ [clean_link]) w'
                            else collect_links d cards seen_links vacancy_links w')
                   else collect_links d cards seen_links vacancy_links w'))"

text \<open>The method: whatever the body raises, the answer is the empty list.\<close>

definition get_vacancy_links :: "'w webdriver \<Rightarrow> 'w \<Rightarrow> string list \<times> 'w" where
  "get_vacancy_links d w =
     (case find_cards d w of
        (Inr cards, w') \<Rightarrow> collect_links d cards {} [] w'
      | (Inl _, w') \<Rightarrow> ([], w'))"

section \<open>The Run Orchestrator: \<open>run\<close>\<close>

definition pager_next_selector :: string where
  "pager_next_selector = ''a[data-qa='' @ [CHR 0x27] @ ''pager-next'' @ [CHR 0x27] @ '']''"

text \<open>
  The \<open>try\<close> block that ends an iteration of the page loop: \<open>True\<close> when the next
  page was requested, \<open>False\<close> for each of its \<open>break\<close>s.
\<close>

definition advance_page :: "'w webdriver \<Rightarrow> string \<Rightarrow> 'w \<Rightarrow> bool \<times> 'w" where
  "advance_page d current_search_url w =
     (case then_do
             (\<lambda>w. if \<not> contains (current_url d w) ''/search/vacancy''
                  then navigate d current_search_url w else (Inr (), w)) (\<lambda>_.
           then_do (find_element d pager_next_selector) (\<lambda>next_button.
           then_do (get_attribute d next_button ''class'') (\<lambda>cls.
             (let button_class = (case cls of None \<Rightarrow> [] | Some c \<Rightarrow> c)
              in if contains button_class ''disabled'' \<or> contains button_class ''HH-Pager-Disabled''
                 then ok False
                 else then_do (click d next_button) (\<lambda>_. ok True))))) w of
        (Inr moved, w') \<Rightarrow> (moved, w')
      | (Inl _, w') \<Rightarrow> (False, w'))"

text \<open>
  The loop over the listings of one page. \<open>applications_today\<close> grows by one exactly
  when \<open>_apply_to_vacancy\<close> answers \<open>True\<close>.
\<close>

fun process_page ::
  "'w webdriver \<Rightarrow> config \<Rightarrow> string \<Rightarrow> string list \<Rightarrow> int \<Rightarrow> 'w hh \<Rightarrow> int \<times> 'w hh" where
  "process_page d cfg current_search_url [] applications_today s = (applications_today, s)"
| "process_page d cfg current_search_url (vacancy_url # rest) applications_today s =
     (if applications_today \<ge> max_applications_per_day (settings cfg)
      then (applications_today, s)
      else (case apply_to_vacancy d cfg vacancy_url (Some current_search_url) s of
              (applied, s') \<Rightarrow>
                process_page d cfg current_search_url rest
                  (if applied then applications_today + 1 else applications_today) s'))"

text \<open>
  The page loop may run for ever (a site that always offers a next page whose listings
  are all skipped), so it takes fuel: one unit for each result page. A run that is cut
  answers \<open>OutOfFuel\<close> with the state it had reached.
\<close>

datatype 'a fueled = Finished 'a | OutOfFuel 'a

fun page_loop ::
  "nat \<Rightarrow> 'w webdriver \<Rightarrow> config \<Rightarrow> int \<Rightarrow> 'w hh \<Rightarrow> (int \<times> 'w hh) fueled" where
  "page_loop fuel d cfg applications_today s =
     (if \<not> applications_today < max_applications_per_day (settings cfg)
      then Finished (applications_today, s)
      else (case fuel of
              0 \<Rightarrow> OutOfFuel (applications_today, s)
            | Suc fuel' \<Rightarrow>
               (case get_vacancy_links d (browser s) of
                  (vacancy_links, w1) \<Rightarrow>
                    if vacancy_links = [] then Finished (applications_today, s\<lparr>browser := w1\<rparr>)
                    else (let current_search_url = current_url d w1
                          in case process_page d cfg current_search_url vacancy_links
                                    applications_today (s\<lparr>browser := w1\<rparr>) of
                               (today, s2) \<Rightarrow>
                                 if today \<ge> max_applications_per_day (settings cfg)
                                 then Finished (today, s2)
                                 else (case advance_page d current_search_url (browser s2) of
                                         (moved, w3) \<Rightarrow>
                                           if moved
                                           then page_loop fuel' d cfg today (s2\<lparr>browser := w3\<rparr>)
                                           else Finished (today, s2\<lparr>browser := w3\<rparr>))))))"

declare page_loop.simps [simp del]

text \<open>The loop over the keywords; what it raises reaches the handler of \<open>run\<close>.\<close>

fun keyword_loop ::
  "nat \<Rightarrow> 'w webdriver \<Rightarrow> config \<Rightarrow> string list \<Rightarrow> int \<Rightarrow> 'w hh
     \<Rightarrow> ((exn + unit) \<times> int \<times> 'w hh) fueled" where
  "keyword_loop fuel d cfg [] applications_today s = Finished (Inr (), applications_today, s)"
| "keyword_loop fuel d cfg (keyword # rest) applications_today s =
     (if applications_today \<ge> max_applications_per_day (settings cfg)
      then Finished (Inr (), applications_today, s)
      else (case build_search_url (filters cfg) (Some keyword) of
              Inl e \<Rightarrow> Finished (Inl e, applications_today, s)
            | Inr search_url \<Rightarrow>
               (case on_browser (navigate d search_url) s of
                  (Inl e, s1) \<Rightarrow> Finished (Inl e, applications_today, s1)
                | (Inr _, s1) \<Rightarrow>
                   (case page_loop fuel d cfg applications_today s1 of
                      OutOfFuel (today, s2) \<Rightarrow> OutOfFuel (Inr (), today, s2)
                    | Finished (today, s2) \<Rightarrow>
                        if today \<ge> max_applications_per_day (settings cfg)
                        then Finished (Inr (), today, s2)
                        else keyword_loop fuel d cfg rest today s2))))"

text \<open>\<open>_setup_driver\<close>: \<open>self.driver\<close> is set as soon as the browser is launched.\<close>

definition setup_driver :: "'w webdriver \<Rightarrow> ('w hh, unit) prog" where
  "setup_driver d =
     then_do (on_browser (launch d)) (\<lambda>_.
     then_do (modify (\<lambda>s. s\<lparr>driver_set := True\<rparr>)) (\<lambda>_.
     on_browser (configure d)))"

text \<open>
  The \<open>try\<close> block of \<open>run\<close>, with the final value of its local
  \<open>applications_today\<close> (zero before the variable is bound).
\<close>

definition run_body ::
  "nat \<Rightarrow> 'w webdriver \<Rightarrow> config \<Rightarrow> 'w hh \<Rightarrow> ((exn + unit) \<times> int \<times> 'w hh) fueled" where
  "run_body fuel d cfg s =
     (case setup_driver d s of
        (Inl e, s1) \<Rightarrow> Finished (Inl e, 0, s1)
      | (Inr _, s1) \<Rightarrow>
         (case login d (browser s1) of
            (logged_in, w2) \<Rightarrow>
              if \<not> logged_in then Finished (Inr (), 0, s1\<lparr>browser := w2\<rparr>)
              else (let keywords = (case keywords_cfg (filters cfg) of None \<Rightarrow> [] | Some ks \<Rightarrow> ks)
                    in if keywords = [] then Finished (Inr (), 0, s1\<lparr>browser := w2\<rparr>)
                       else keyword_loop fuel d cfg keywords 0 (s1\<lparr>browser := w2\<rparr>))))"

text \<open>
  \<open>run\<close>: the handler logs whatever the body raised; the \<open>finally\<close> clause closes
  the browser when there is one, and what \<open>quit\<close> raises leaves the method.
\<close>

definition run ::
  "nat \<Rightarrow> 'w webdriver \<Rightarrow> config \<Rightarrow> 'w hh \<Rightarrow> ((exn + unit) \<times> int \<times> 'w hh) fueled" where
  "run fuel d cfg s =
     (case run_body fuel d cfg s of
        OutOfFuel x \<Rightarrow> OutOfFuel x
      | Finished (_, today, s') \<Rightarrow>
          if driver_set s'
          then (case on_browser (quit d) s' of (r, s'') \<Rightarrow> Finished (r, today, s''))
          else Finished (Inr (), today, s'))"

section \<open>Notions of the specification\<close>

text \<open>
  The listing identifier in the words of the specification: the last segment of the URL
  between slashes, cut at the first question mark.
\<close>

definition last_segment :: "string \<Rightarrow> string" where
  "last_segment u = rev (takeWhile (\<lambda>c. c \<noteq> CHR ''/'') (rev u))"

definition strip_query :: "string \<Rightarrow> string" where
  "strip_query u = takeWhile (\<lambda>c. c \<noteq> CHR ''?'') u"

definition listing_identifier :: "string \<Rightarrow> string" where
  "listing_identifier u = strip_query (last_segment u)"

text \<open>
  The parameters a query string shows to its reader: what follows the first question
  mark, cut at every \<open>&\<close>, each piece cut at its first \<open>=\<close>.
\<close>

definition query_items :: "string \<Rightarrow> (string \<times> string) list" where
  "query_items url =
     (let q = tl (dropWhile (\<lambda>c. c \<noteq> CHR ''?'') url)
      in if q = [] then []
         else map (\<lambda>p. (takeWhile (\<lambda>c. c \<noteq> CHR ''='') p, tl (dropWhile (\<lambda>c. c \<noteq> CHR ''='') p)))
                (split_char CHR ''&'' q))"

text \<open>
  The result page in the words of the specification. \<open>read_hrefs\<close> is what the cards of
  the page expose, read in order (\<open>None\<close> for a card without a link or one whose read
  raises); a link is resolved when it is the relative path of a listing, kept when it
  points to a listing, and stripped of its query string; \<open>first_seen\<close> keeps the first
  occurrence of every element, in the order of these first occurrences.
\<close>

fun read_hrefs :: "'w webdriver \<Rightarrow> elem list \<Rightarrow> 'w \<Rightarrow> string option list \<times> 'w" where
  "read_hrefs d [] w = ([], w)"
| "read_hrefs d (c # cs) w =
     (case get_attribute d c ''href'' w of
        (r, w') \<Rightarrow>
          (case read_hrefs d cs w' of
             (hs, w'') \<Rightarrow> ((case r of Inl _ \<Rightarrow> None | Inr h \<Rightarrow> h) # hs, w'')))"

definition resolve_link :: "string \<Rightarrow> string" where
  "resolve_link href = (if prefix ''/vacancy/'' href then ''https://hh.ru'' @ href else href)"

definition listing_link :: "string option \<Rightarrow> string list" where
  "listing_link h =
     (case h of
        None \<Rightarrow> []
      | Some href \<Rightarrow>
          if href \<noteq> [] \<and> sublist ''/vacancy/'' (resolve_link href)
          then [strip_query (resolve_link href)] else [])"

definition listing_links :: "string option list \<Rightarrow> string list" where
  "listing_links hs = concat (map listing_link hs)"

definition first_seen :: "'a list \<Rightarrow> 'a list" where
  "first_seen xs = rev (remdups (rev xs))"

text \<open>
  The listing links of the cards \<open>cards\<close>, read from the browser state \<open>w\<close>, with the
  browser state after the reads.
\<close>

definition page_links :: "'w webdriver \<Rightarrow> elem list \<Rightarrow> 'w \<Rightarrow> string list \<times> 'w" where
  "page_links d cards w =
     (first_seen (listing_links (fst (read_hrefs d cards w))), snd (read_hrefs d cards w))"

text \<open>
  What the browser answers to the lookups of a result page. The lookup with the primary
  selector is the bounded wait for a first element followed by the query for all of
  them; it times out, leaving the browser in \<open>w'\<close>, when either of the two raises
  \<open>TimeoutException\<close>, and it fails when either raises anything else. A query with an
  alternative selector finds nothing when it answers no element or raises.
\<close>

definition primary_times_out :: "'w webdriver \<Rightarrow> 'w \<Rightarrow> 'w \<Rightarrow> bool" where
  "primary_times_out d w w' =
     (case wait_present d primary_selector w of
        (Inl e, v) \<Rightarrow> e = TimeoutException \<and> v = w'
      | (Inr _, v) \<Rightarrow>
          (case find_elements d primary_selector v of
             (Inl e, v') \<Rightarrow> e = TimeoutException \<and> v' = w'
           | (Inr _, _) \<Rightarrow> False))"

definition primary_fails :: "'w webdriver \<Rightarrow> 'w \<Rightarrow> 'w \<Rightarrow> bool" where
  "primary_fails d w w' =
     (case wait_present d primary_selector w of
        (Inl e, v) \<Rightarrow> e \<noteq> TimeoutException \<and> v = w'
      | (Inr _, v) \<Rightarrow>
          (case find_elements d primary_selector v of
             (Inl e, v') \<Rightarrow> e \<noteq> TimeoutException \<and> v' = w'
           | (Inr _, _) \<Rightarrow> False))"

definition finds_nothing :: "'w webdriver \<Rightarrow> string \<Rightarrow> 'w \<Rightarrow> 'w \<Rightarrow> bool" where
  "finds_nothing d selector w w' =
     (case find_elements d selector w of
        (Inl _, v) \<Rightarrow> v = w'
      | (Inr cards, v) \<Rightarrow> cards = [] \<and> v = w')"

text \<open>Some calls of the listing processor in a row, on the same listing.\<close>

fun apply_times ::
  "'w webdriver \<Rightarrow> config \<Rightarrow> string \<Rightarrow> string option \<Rightarrow> nat \<Rightarrow> 'w hh \<Rightarrow> bool list \<times> 'w hh" where
  "apply_times d cfg vacancy_url search_page_url 0 s = ([], s)"
| "apply_times d cfg vacancy_url search_page_url (Suc n) s =
     (case apply_to_vacancy d cfg vacancy_url search_page_url s of
        (result, s') \<Rightarrow>
          (case apply_times d cfg vacancy_url search_page_url n s' of
             (results, s'') \<Rightarrow> (result # results, s'')))"

text \<open>The books after a recorded application, the browser left in state \<open>w\<close>.\<close>

definition recorded :: "string \<Rightarrow> 'w hh \<Rightarrow> 'w \<Rightarrow> 'w hh" where
  "recorded vacancy_id s w =
     s\<lparr>applied_count := applied_count s + 1,
       applied_vacancies := insert vacancy_id (applied_vacancies s),
       applied_file := applied_file s @ [vacancy_id],
       browser := w\<rparr>"

text \<open>The state a run has reached, finished or cut.\<close>

fun reached :: "'a fueled \<Rightarrow> 'a" where
  "reached (Finished x) = x"
| "reached (OutOfFuel x) = x"

section \<open>Notions for the proofs\<close>

text \<open>
  \<open>keeps R m\<close>: every run of \<open>m\<close>, returning or raising, relates the state
  before to the state after by \<open>R\<close>. \<open>returns Q m\<close>: every run of \<open>m\<close> that
  returns satisfies \<open>Q\<close> of the value and the state after.
\<close>

definition keeps :: "('s \<Rightarrow> 's \<Rightarrow> bool) \<Rightarrow> ('s, 'a) prog \<Rightarrow> bool" where
  "keeps R m = (\<forall>s. R s (snd (m s)))"

definition returns :: "('a \<Rightarrow> 's \<Rightarrow> bool) \<Rightarrow> ('s, 'a) prog \<Rightarrow> bool" where
  "returns Q m = (\<forall>s a s'. m s = (Inr a, s') \<longrightarrow> Q a s')"

text \<open>
  Two relations between the state before and the state after: nothing but the browser
  has changed; and what a call of the listing processor for the listing \<open>vacancy_id\<close>
  may do to the books (counters grow, the ledger gains at most this identifier, the file
  gains only lines that hold it).
\<close>

definition only_browser :: "'w hh \<Rightarrow> 'w hh \<Rightarrow> bool" where
  "only_browser s s' = (\<exists>w. s' = s\<lparr>browser := w\<rparr>)"

definition books_step :: "string \<Rightarrow> 'w hh \<Rightarrow> 'w hh \<Rightarrow> bool" where
  "books_step vacancy_id s s' =
     (applied_count s \<le> applied_count s' \<and> skipped_count s \<le> skipped_count s'
      \<and> error_count s \<le> error_count s'
      \<and> applied_vacancies s \<subseteq> applied_vacancies s'
      \<and> applied_vacancies s' \<subseteq> insert vacancy_id (applied_vacancies s)
      \<and> (\<exists>n. applied_file s' = applied_file s @ replicate n vacancy_id)
      \<and> driver_set s' = driver_set s)"

definition browser_closed :: "('w hh \<Rightarrow> 'w hh \<Rightarrow> bool) \<Rightarrow> bool" where
  "browser_closed R = (reflp R \<and> transp R \<and> (\<forall>s w. R s (s\<lparr>browser := w\<rparr>)))"

text \<open>What a run of the listing processor that returns has achieved.\<close>

definition came_back :: "'w webdriver \<Rightarrow> string \<Rightarrow> bool \<Rightarrow> 'w hh \<Rightarrow> bool" where
  "came_back d r result s' = (\<exists>w. navigate d r w = (Inr (), browser s'))"

definition applied_recorded :: "string \<Rightarrow> bool \<Rightarrow> 'w hh \<Rightarrow> bool" where
  "applied_recorded vacancy_id result s' = (result \<longrightarrow> vacancy_id \<in> applied_vacancies s')"

section \<open>Concrete inputs\<close>

definition demo_filters :: search_filters where
  "demo_filters = \<lparr>keywords_cfg = Some [''python''], salary_min = Some 0, area = Some ''Kazan'',
                    experience = Some ''senior'', employment = Some ''full'', schedule = None\<rparr>"

definition bare_filters :: search_filters where
  "bare_filters = \<lparr>keywords_cfg = Some [''python''], salary_min = None, area = None,
                    experience = None, employment = None, schedule = None\<rparr>"

definition demo_config :: "bool \<Rightarrow> int \<Rightarrow> config" where
  "demo_config skip limit =
     \<lparr>filters = bare_filters,
      settings = \<lparr>max_applications_per_day = limit, cover_letter = ''Hello'',
                  skip_already_applied = skip\<rparr>\<rparr>"

definition fresh :: "'w \<Rightarrow> 'w hh" where
  "fresh w = \<lparr>applied_count = 0, skipped_count = 0, error_count = 0, applied_vacancies = {},
              applied_file = [], driver_set = True, browser = w\<rparr>"

text \<open>
  Browsers for the concrete runs below, on a state that is just the current location.
  \<open>quiet_browser\<close> navigates where it is told and finds nothing on any page;
  \<open>clickable_browser\<close> finds every apply control and \<open>submit_browser\<close> the submission
  control as well; \<open>marker_browser\<close> shows the already-applied marker and fails every
  navigation to a search page; \<open>listing_browser\<close> shows four cards on a search page, two
  of them for the same listing and one for no listing; \<open>fallback_browser\<close> shows the
  same cards to the second alternative selector only; \<open>busy_browser\<close> finds the apply
  control on each of these listings.
\<close>

definition quiet_browser :: "string webdriver" where
  "quiet_browser =
     \<lparr>launch = (\<lambda>w. (Inr (), w)),
      configure = (\<lambda>w. (Inr (), w)),
      login = (\<lambda>w. (True, w)),
      quit = (\<lambda>w. (Inr (), w)),
      current_url = (\<lambda>w. w),
      navigate = (\<lambda>url w. (Inr (), url)),
      wait_clickable = (\<lambda>selector w. (Inl TimeoutException, w)),
      wait_present = (\<lambda>selector w. (Inl TimeoutException, w)),
      find_element = (\<lambda>selector w. (Inl NoSuchElementException, w)),
      find_elements = (\<lambda>selector w. (Inr [], w)),
      execute_script = (\<lambda>script e w. (Inr (), w)),
      click = (\<lambda>e w. (Inr (), w)),
      is_displayed = (\<lambda>e w. (Inr False, w)),
      clear = (\<lambda>e w. (Inr (), w)),
      send_keys = (\<lambda>e keys w. (Inr (), w)),
      get_attribute = (\<lambda>e name w. (Inr None, w))\<rparr>"

definition clickable_browser :: "string webdriver" where
  "clickable_browser = quiet_browser\<lparr>wait_clickable := (\<lambda>selector w. (Inr 1, w))\<rparr>"

definition submit_browser :: "string webdriver" where
  "submit_browser =
     clickable_browser
       \<lparr>wait_present := (\<lambda>selector w. if selector = submit_selector then (Inr 2, w)
                            else (Inl TimeoutException, w))\<rparr>"

definition marker_browser :: "string webdriver" where
  "marker_browser =
     quiet_browser
       \<lparr>navigate := (\<lambda>url w. if contains url ''/search/'' then (Inl WebDriverException, w)
                          else (Inr (), url)),
        find_element := (\<lambda>selector w. if selector = already_applied_selector then (Inr 7, w)
                          else (Inl NoSuchElementException, w))\<rparr>"

definition listing_browser :: "string webdriver" where
  "listing_browser =
     quiet_browser
       \<lparr>wait_present := (\<lambda>selector w. if selector = primary_selector then (Inr 0, w)
                            else (Inl TimeoutException, w)),
        find_elements := (\<lambda>selector w.
           (Inr (if selector = primary_selector \<and> contains w ''/search/vacancy''
                 then [1, 2, 3, 4] else []), w)),
        get_attribute := (\<lambda>e name w.
           (Inr (if name \<noteq> ''href'' then None
                 else if e = 1 then Some ''https://hh.ru/vacancy/1?query=python''
                 else if e = 2 then Some ''/vacancy/2''
                 else if e = 3 then Some ''https://hh.ru/vacancy/1?from=serp''
                 else Some ''https://hh.ru/employer/5''), w))\<rparr>"

definition fallback_browser :: "string webdriver" where
  "fallback_browser =
     listing_browser
       \<lparr>wait_present := (\<lambda>selector w. (Inl TimeoutException, w)),
        find_elements := (\<lambda>selector w.
           (Inr (if selector = serp_href_selector then [1, 2, 3, 4] else []), w))\<rparr>"

definition busy_browser :: "string webdriver" where
  "busy_browser = listing_browser\<lparr>wait_clickable := (\<lambda>selector w. (Inr 1, w))\<rparr>"

section \<open>Splitting and joining\<close>

lemma split_char_not_Nil: "split_char c s \<noteq> []"
  by (induction s) (auto split: list.splits)

lemma hd_split_char: "hd (split_char c s) = takeWhile (\<lambda>x. x \<noteq> c) s"
  by (induction s) (auto split: list.splits simp: split_char_not_Nil)

lemma split_char_absent: "c \<notin> set s \<Longrightarrow> split_char c s = [s]"
  by (induction s) auto

lemma split_char_append: "split_char c (xs @ c # ys) = split_char c xs @ split_char c ys"
  by (induction xs) (auto split: list.splits simp: split_char_not_Nil)

lemma last_split_char: "last (split_char c s) = rev (takeWhile (\<lambda>x. x \<noteq> c) (rev s))"
proof (cases "c \<in> set s")
  case True
  then obtain xs ys where s: "s = xs @ c # ys" and ys: "c \<notin> set ys"
    by (meson split_list_last)
  have "last (split_char c s) = ys"
    by (simp add: s split_char_append split_char_not_Nil split_char_absent [OF ys])
  moreover have "takeWhile (\<lambda>x. x \<noteq> c) (rev s) = rev ys"
    using ys by (auto simp add: s takeWhile_tail takeWhile_eq_all_conv)
  ultimately show ?thesis by simp
next
  case False
  then have "\<forall>x \<in> set (rev s). x \<noteq> c" by auto
  then have tw: "takeWhile (\<lambda>x. x \<noteq> c) (rev s) = rev s"
    by (rule takeWhile_eq_all_conv [THEN iffD2])
  show ?thesis unfolding tw using False by (simp add: split_char_absent)
qed

lemma takeWhile_sep: "c \<notin> set xs \<Longrightarrow> takeWhile (\<lambda>x. x \<noteq> c) (xs @ c # ys) = xs"
  by (induction xs) auto

lemma dropWhile_sep: "c \<notin> set xs \<Longrightarrow> dropWhile (\<lambda>x. x \<noteq> c) (xs @ c # ys) = c # ys"
  by (induction xs) auto

lemma split_join:
  "ps \<noteq> [] \<Longrightarrow> \<forall>p \<in> set ps. c \<notin> set p \<Longrightarrow> split_char c (join_with c ps) = ps"
proof (induction c ps rule: join_with.induct)
  case (1 c)
  then show ?case by simp
next
  case (2 c p)
  then show ?case by (simp add: split_char_absent)
next
  case (3 c p q ps)
  then show ?case by (simp add: split_char_append split_char_absent)
qed

lemma join_with_Nil_iff: "\<forall>p \<in> set ps. p \<noteq> [] \<Longrightarrow> join_with c ps = [] \<longleftrightarrow> ps = []"
  by (induction c ps rule: join_with.induct) auto

lemma vacancy_id_of_eq: "vacancy_id_of u = listing_identifier u"
  by (simp add: vacancy_id_of_def listing_identifier_def strip_query_def last_segment_def
      hd_split_char last_split_char)

lemma vacancy_id_trailing: "vacancy_id_of (p @ ''/'') = []"
  by (simp add: vacancy_id_of_eq listing_identifier_def strip_query_def last_segment_def)

section \<open>Percent-encoding\<close>

lemma of_char_lt: "(of_char c :: nat) < 256"
  by (cases c) (simp add: of_char_of [symmetric] del: of_char_of)

lemma hex_digit_table:
  "\<forall>n \<in> set [0..<16]. hex_digit n \<noteq> CHR ''&'' \<and> hex_digit n \<noteq> CHR ''=''"
  by code_simp

lemma hex_digit_neq: "n < 16 \<Longrightarrow> hex_digit n \<noteq> CHR ''&'' \<and> hex_digit n \<noteq> CHR ''=''"
  using hex_digit_table by simp

lemma quote_byte_clean: "CHR ''&'' \<notin> set (quote_byte c) \<and> CHR ''='' \<notin> set (quote_byte c)"
proof -
  have d: "(of_char c :: nat) div 16 < 16"
    using of_char_lt [of c] by (simp add: less_mult_imp_div_less)
  have m: "(of_char c :: nat) mod 16 < 16" by simp
  show ?thesis
    using hex_digit_neq [OF d] hex_digit_neq [OF m]
    by (auto simp: quote_byte_def is_unreserved_def)
qed

lemma quote_byte_not_Nil: "quote_byte c \<noteq> []"
  by (simp add: quote_byte_def)

lemma quote_plus_clean: "CHR ''&'' \<notin> set (quote_plus s) \<and> CHR ''='' \<notin> set (quote_plus s)"
  using quote_byte_clean by (auto simp: quote_plus_def)

lemma quote_plus_Nil_iff: "quote_plus s = [] \<longleftrightarrow> s = []"
  by (cases s) (simp_all add: quote_plus_def quote_byte_not_Nil)

lemma encode_pair_clean: "CHR ''&'' \<notin> set (encode_pair kv)"
  using quote_plus_clean by (simp add: encode_pair_def)

lemma encode_pair_not_Nil: "encode_pair kv \<noteq> []"
  by (simp add: encode_pair_def)

lemma urlencode_Nil_iff: "urlencode ps = [] \<longleftrightarrow> ps = []"
  unfolding urlencode_def
  by (subst join_with_Nil_iff) (auto simp: encode_pair_not_Nil)

lemma decode_pair:
  "takeWhile (\<lambda>c. c \<noteq> CHR ''='') (encode_pair kv) = quote_plus (fst kv)"
  "tl (dropWhile (\<lambda>c. c \<noteq> CHR ''='') (encode_pair kv)) = quote_plus (snd kv)"
  using quote_plus_clean [of "fst kv"]
  by (simp_all add: encode_pair_def takeWhile_sep dropWhile_sep)

lemma query_items_urlencode:
  "query_items (base_url @ CHR ''?'' # urlencode ps)
     = map (\<lambda>kv. (quote_plus (fst kv), quote_plus (snd kv))) ps"
proof (cases "ps = []")
  case True
  then show ?thesis by (simp add: query_items_def base_url_def urlencode_def)
next
  case False
  have q: "tl (dropWhile (\<lambda>c. c \<noteq> CHR ''?'') (base_url @ CHR ''?'' # urlencode ps)) = urlencode ps"
    by (simp add: base_url_def)
  have sp: "split_char CHR ''&'' (urlencode ps) = map encode_pair ps"
    unfolding urlencode_def using False by (intro split_join) (auto simp: encode_pair_clean)
  show ?thesis
    unfolding query_items_def q Let_def using False
    by (simp add: urlencode_Nil_iff sp decode_pair)
qed

section \<open>The search URL\<close>

lemma str_nat_not_Nil: "str_nat n \<noteq> []"
  by (subst str_nat.simps) simp

lemma str_int_not_Nil: "str_int i \<noteq> []"
  by (simp add: str_int_def str_nat_not_Nil)

lemma area_code: "dict_get area_map a ''1'' = (if a = sankt_peterburg then ''2'' else ''1'')"
  by (simp add: dict_get_def area_map_def moskva_def sankt_peterburg_def)

lemma quote_plus_keys:
  "quote_plus ''text'' = ''text''" "quote_plus ''salary'' = ''salary''"
  "quote_plus ''area'' = ''area''" "quote_plus ''experience'' = ''experience''"
  "quote_plus ''employment'' = ''employment''" "quote_plus ''schedule'' = ''schedule''"
  by (simp_all add: quote_plus_def quote_byte_def is_unreserved_def)

lemma build_search_url_Inr:
  assumes "build_search_url f keyword = Inr url"
  shows "url = base_url @ CHR ''?'' # urlencode (params_dict f keyword)"
  using assms by (auto simp: build_search_url_def Let_def split: if_splits)

lemma query_items_build:
  assumes "build_search_url f keyword = Inr url"
  shows "query_items url
           = map (\<lambda>kv. (quote_plus (fst kv), quote_plus (snd kv))) (params_dict f keyword)"
  unfolding build_search_url_Inr [OF assms] by (rule query_items_urlencode)

lemma first_keyword_lookup: "k \<noteq> ''text'' \<Longrightarrow> map_of (first_keyword f) k = None"
  by (simp add: first_keyword_def split: option.split list.split)

lemma text_param_lookup: "k \<noteq> ''text'' \<Longrightarrow> map_of (text_param f keyword) k = None"
  by (simp add: text_param_def first_keyword_lookup split: option.split)

lemma salary_param_lookup:
  "map_of (salary_param f) k
     = (if k = ''salary'' \<and> truthy_int (salary_min f)
        then map_option str_int (salary_min f) else None)"
  by (simp add: salary_param_def truthy_int_def split: option.split)

lemma area_param_lookup:
  "map_of (area_param f) k
     = (case area f of None \<Rightarrow> None
        | Some a \<Rightarrow> if k = ''area'' \<and> a \<noteq> []
                    then Some (if a = sankt_peterburg then ''2'' else ''1'') else None)"
  by (simp add: area_param_def area_code split: option.split)

lemma enum_param_lookup:
  "map_of (enum_param key m v) k
     = (case v of None \<Rightarrow> None
        | Some x \<Rightarrow> if k = key \<and> x \<noteq> [] \<and> dict_get m x [] \<noteq> []
                    then Some (dict_get m x []) else None)"
  by (simp add: enum_param_def Let_def split: option.split)

lemma exp_map_get:
  "dict_get exp_map x [] = (if x \<in> set (map fst exp_map) then x else [])"
  by (simp add: dict_get_def exp_map_def)

lemma employment_map_get:
  "dict_get employment_map x [] = (if x \<in> set (map fst employment_map) then x else [])"
  by (simp add: dict_get_def employment_map_def)

lemma schedule_map_get:
  "dict_get schedule_map x [] = (if x \<in> set (map fst schedule_map) then x else [])"
  by (simp add: dict_get_def schedule_map_def)

lemma table_keys_not_Nil:
  "[] \<notin> set (map fst exp_map)" "[] \<notin> set (map fst employment_map)"
  "[] \<notin> set (map fst schedule_map)"
  by (simp_all add: exp_map_def employment_map_def schedule_map_def)

lemma enum_lookups:
  "map_of (enum_param key exp_map v) k
     = (case v of None \<Rightarrow> None
        | Some x \<Rightarrow> if k = key \<and> x \<in> set (map fst exp_map) then Some x else None)"
  "map_of (enum_param key employment_map v) k
     = (case v of None \<Rightarrow> None
        | Some x \<Rightarrow> if k = key \<and> x \<in> set (map fst employment_map) then Some x else None)"
  "map_of (enum_param key schedule_map v) k
     = (case v of None \<Rightarrow> None
        | Some x \<Rightarrow> if k = key \<and> x \<in> set (map fst schedule_map) then Some x else None)"
  using table_keys_not_Nil
  by (auto simp add: enum_param_lookup exp_map_get employment_map_get schedule_map_get
      split: option.splits)

lemma first_keyword_items:
  "(k, v) \<in> set (first_keyword f) \<Longrightarrow> k = ''text'' \<and> truthy_list (keywords_cfg f)"
  by (cases "keywords_cfg f")
     (auto simp: first_keyword_def truthy_list_def split: list.splits)

lemma text_param_items:
  "(k, v) \<in> set (text_param f keyword) \<Longrightarrow>
     k = ''text'' \<and> (truthy_str keyword \<or> truthy_list (keywords_cfg f))
     \<and> (truthy_str keyword \<longrightarrow> v \<noteq> [])"
  by (cases keyword)
     (auto simp: text_param_def truthy_str_def dest: first_keyword_items split: if_splits)

lemma salary_param_items:
  "(k, v) \<in> set (salary_param f) \<Longrightarrow> k = ''salary'' \<and> v \<noteq> [] \<and> truthy_int (salary_min f)"
  by (cases "salary_min f")
     (auto simp: salary_param_def truthy_int_def str_int_not_Nil split: if_splits)

lemma area_param_items:
  "(k, v) \<in> set (area_param f) \<Longrightarrow> k = ''area'' \<and> v \<noteq> [] \<and> truthy_str (area f)"
  by (cases "area f")
     (auto simp: area_param_def truthy_str_def area_code split: if_splits)

lemma enum_param_items:
  "(k, v) \<in> set (enum_param key m x) \<Longrightarrow> k = key \<and> v \<noteq> [] \<and> truthy_str x"
  by (cases x) (auto simp: enum_param_def truthy_str_def Let_def split: if_splits)

lemma params_dict_items:
  assumes "(k, v) \<in> set (params_dict f keyword)"
  shows "(k = ''text'' \<and> (truthy_str keyword \<or> truthy_list (keywords_cfg f))
            \<and> (truthy_str keyword \<longrightarrow> v \<noteq> []))
       \<or> (k = ''salary'' \<and> v \<noteq> [] \<and> truthy_int (salary_min f))
       \<or> (k = ''area'' \<and> v \<noteq> [] \<and> truthy_str (area f))
       \<or> (k = ''experience'' \<and> v \<noteq> [] \<and> truthy_str (experience f))
       \<or> (k = ''employment'' \<and> v \<noteq> [] \<and> truthy_str (employment f))
       \<or> (k = ''schedule'' \<and> v \<noteq> [] \<and> truthy_str (schedule f))"
proof -
  from assms consider
      (t) "(k, v) \<in> set (text_param f keyword)"
    | (s) "(k, v) \<in> set (salary_param f)"
    | (a) "(k, v) \<in> set (area_param f)"
    | (x) "(k, v) \<in> set (enum_param ''experience'' exp_map (experience f))"
    | (e) "(k, v) \<in> set (enum_param ''employment'' employment_map (employment f))"
    | (c) "(k, v) \<in> set (enum_param ''schedule'' schedule_map (schedule f))"
    unfolding params_dict_def set_append Un_iff by argo
  then show ?thesis
  proof cases
    case t
    from text_param_items [OF t] show ?thesis by argo
  next
    case s
    from salary_param_items [OF s] show ?thesis by argo
  next
    case a
    from area_param_items [OF a] show ?thesis by argo
  next
    case x
    from enum_param_items [OF x] show ?thesis by argo
  next
    case e
    from enum_param_items [OF e] show ?thesis by argo
  next
    case c
    from enum_param_items [OF c] show ?thesis by argo
  qed
qed

lemma query_item_cases:
  assumes b: "build_search_url f keyword = Inr url" and kv: "kv \<in> set (query_items url)"
  shows "(fst kv = ''text'' \<and> (truthy_str keyword \<or> truthy_list (keywords_cfg f))
            \<and> (truthy_str keyword \<longrightarrow> snd kv \<noteq> []))
       \<or> (fst kv = ''salary'' \<and> snd kv \<noteq> [] \<and> truthy_int (salary_min f))
       \<or> (fst kv = ''area'' \<and> snd kv \<noteq> [] \<and> truthy_str (area f))
       \<or> (fst kv = ''experience'' \<and> snd kv \<noteq> [] \<and> truthy_str (experience f))
       \<or> (fst kv = ''employment'' \<and> snd kv \<noteq> [] \<and> truthy_str (employment f))
       \<or> (fst kv = ''schedule'' \<and> snd kv \<noteq> [] \<and> truthy_str (schedule f))"
proof -
  from kv obtain k v where p: "(k, v) \<in> set (params_dict f keyword)"
    and e: "kv = (quote_plus k, quote_plus v)"
    unfolding query_items_build [OF b] by auto
  show ?thesis
    using params_dict_items [OF p] unfolding e fst_conv snd_conv
    by (elim disjE conjE) (simp_all add: quote_plus_keys quote_plus_Nil_iff)
qed

text \<open>
  Claim C6. \<open>_build_search_url\<close> is a function of the keyword and the search filters
  alone: \<^const>\<open>build_search_url\<close> takes nothing else and reads no state, so equal
  inputs give the same string. Whenever it returns a URL, no parameter of the query
  string other than \<open>text\<close> has an empty value, and a filter that is unset (absent,
  empty or zero) does not appear among the parameters at all; \<open>text\<close> is absent when
  neither a keyword nor a configured keyword list is given, and not empty when a keyword is
  given.
\<close>

theorem build_search_url_no_empty_parameter:
  assumes "build_search_url f keyword = Inr url"
  shows "(\<forall>kv \<in> set (query_items url). fst kv \<noteq> ''text'' \<longrightarrow> snd kv \<noteq> [])
       \<and> (\<not> truthy_int (salary_min f) \<longrightarrow> ''salary'' \<notin> fst ` set (query_items url))
       \<and> (\<not> truthy_str (area f) \<longrightarrow> ''area'' \<notin> fst ` set (query_items url))
       \<and> (\<not> truthy_str (experience f) \<longrightarrow> ''experience'' \<notin> fst ` set (query_items url))
       \<and> (\<not> truthy_str (employment f) \<longrightarrow> ''employment'' \<notin> fst ` set (query_items url))
       \<and> (\<not> truthy_str (schedule f) \<longrightarrow> ''schedule'' \<notin> fst ` set (query_items url))
       \<and> (\<not> truthy_str keyword \<and> \<not> truthy_list (keywords_cfg f)
            \<longrightarrow> ''text'' \<notin> fst ` set (query_items url))
       \<and> (truthy_str keyword \<longrightarrow> (''text'', []) \<notin> set (query_items url))"
proof (intro conjI impI ballI notI)
  fix kv assume "kv \<in> set (query_items url)" "fst kv \<noteq> ''text''" "snd kv = []"
  then show False using query_item_cases [OF assms, of kv] by auto
next
  assume "\<not> truthy_int (salary_min f)" "''salary'' \<in> fst ` set (query_items url)"
  then show False using query_item_cases [OF assms] by fastforce
next
  assume "\<not> truthy_str (area f)" "''area'' \<in> fst ` set (query_items url)"
  then show False using query_item_cases [OF assms] by fastforce
next
  assume "\<not> truthy_str (experience f)" "''experience'' \<in> fst ` set (query_items url)"
  then show False using query_item_cases [OF assms] by fastforce
next
  assume "\<not> truthy_str (employment f)" "''employment'' \<in> fst ` set (query_items url)"
  then show False using query_item_cases [OF assms] by fastforce
next
  assume "\<not> truthy_str (schedule f)" "''schedule'' \<in> fst ` set (query_items url)"
  then show False using query_item_cases [OF assms] by fastforce
next
  assume "\<not> truthy_str keyword \<and> \<not> truthy_list (keywords_cfg f)"
    "''text'' \<in> fst ` set (query_items url)"
  then show False using query_item_cases [OF assms] by fastforce
next
  assume "truthy_str keyword" "(''text'', []) \<in> set (query_items url)"
  then show False using query_item_cases [OF assms, of "(''text'', [])"] by auto
qed


lemma demo_url:
  "build_search_url demo_filters (Some ''python dev'')
     = Inr ''https://hh.ru/search/vacancy?text=python+dev&area=1&employment=full''"
  by code_simp

lemma demo_items:
  "query_items ''https://hh.ru/search/vacancy?text=python+dev&area=1&employment=full''
     = [(''text'', ''python+dev''), (''area'', ''1''), (''employment'', ''full'')]"
  by code_simp

lemma demo_falsy: "\<not> truthy_int (salary_min demo_filters)" "\<not> truthy_str (schedule demo_filters)"
  "truthy_str (Some ''python dev'')"
  by (simp_all add: demo_filters_def truthy_int_def truthy_str_def)

theorem build_search_url_no_empty_parameter_witness:
  "build_search_url demo_filters (Some ''python dev'')
     = Inr ''https://hh.ru/search/vacancy?text=python+dev&area=1&employment=full''
   \<and> ''salary'' \<notin> fst ` set (query_items
         ''https://hh.ru/search/vacancy?text=python+dev&area=1&employment=full'')
   \<and> ''schedule'' \<notin> fst ` set (query_items
         ''https://hh.ru/search/vacancy?text=python+dev&area=1&employment=full'')
   \<and> (''text'', []) \<notin> set (query_items
         ''https://hh.ru/search/vacancy?text=python+dev&area=1&employment=full'')"
  using build_search_url_no_empty_parameter [OF demo_url] demo_falsy demo_url by blast

text \<open>
  Claim C7, as amended. Every filter that is unset is left out of the query, the region
  included, and nothing is put in its place; a region that is set gets the code \<open>2\<close> for
  Saint Petersburg and the code \<open>1\<close> for Moscow and for every other value; an experience,
  employment or schedule value outside its table is left out, and the URL is still built
  (the only exception of the method is the \<open>IndexError\<close> of the log line, for no keyword
  and an empty keyword list).
\<close>

theorem params_of_filters:
  "map_of (params_dict f keyword) ''salary''
     = (if truthy_int (salary_min f) then map_option str_int (salary_min f) else None)
   \<and> map_of (params_dict f keyword) ''area''
     = (case area f of None \<Rightarrow> None
        | Some a \<Rightarrow> if a = [] then None
                    else Some (if a = sankt_peterburg then ''2'' else ''1''))
   \<and> map_of (params_dict f keyword) ''experience''
     = (case experience f of None \<Rightarrow> None
        | Some x \<Rightarrow> if x \<in> set (map fst exp_map) then Some x else None)
   \<and> map_of (params_dict f keyword) ''employment''
     = (case employment f of None \<Rightarrow> None
        | Some x \<Rightarrow> if x \<in> set (map fst employment_map) then Some x else None)
   \<and> map_of (params_dict f keyword) ''schedule''
     = (case schedule f of None \<Rightarrow> None
        | Some x \<Rightarrow> if x \<in> set (map fst schedule_map) then Some x else None)
   \<and> (truthy_str keyword \<or> keywords_cfg f \<noteq> Some [] \<longrightarrow>
        build_search_url f keyword = Inr (base_url @ CHR ''?'' # urlencode (params_dict f keyword)))"
proof -
  have build: "truthy_str keyword \<or> keywords_cfg f \<noteq> Some [] \<longrightarrow>
        build_search_url f keyword = Inr (base_url @ CHR ''?'' # urlencode (params_dict f keyword))"
    by (auto simp: build_search_url_def Let_def truthy_str_def)
  show ?thesis
    by (simp add: build params_dict_def map_add_def text_param_lookup salary_param_lookup
        area_param_lookup enum_lookups split: option.split)
qed

lemma demo_lookups:
  "area demo_filters = Some ''Kazan''" "experience demo_filters = Some ''senior''"
  "employment demo_filters = Some ''full''" "''Kazan'' \<noteq> sankt_peterburg"
  "''senior'' \<notin> set (map fst exp_map)" "''full'' \<in> set (map fst employment_map)"
  by (simp_all add: demo_filters_def sankt_peterburg_def exp_map_def employment_map_def)

theorem params_of_filters_witness:
  "map_of (params_dict demo_filters (Some ''python dev'')) ''salary'' = None
   \<and> map_of (params_dict demo_filters (Some ''python dev'')) ''area'' = Some ''1''
   \<and> map_of (params_dict demo_filters (Some ''python dev'')) ''experience'' = None
   \<and> map_of (params_dict demo_filters (Some ''python dev'')) ''employment'' = Some ''full''
   \<and> build_search_url demo_filters (Some ''python dev'')
       = Inr (base_url @ CHR ''?'' # urlencode (params_dict demo_filters (Some ''python dev'')))"
  using params_of_filters [of demo_filters "Some ''python dev''"] demo_falsy
  by (simp add: demo_lookups exp_map_def employment_map_def)

text \<open>
  With no region configured the query carries no \<open>area\<close> parameter: no default code is
  injected for an unset region.
\<close>

theorem unset_area_counterexample:
  "build_search_url bare_filters (Some ''python'') = Inr ''https://hh.ru/search/vacancy?text=python''"
  by code_simp

section \<open>Sequencing rules\<close>

lemma keepsI: "(\<And>s r s'. m s = (r, s') \<Longrightarrow> R s s') \<Longrightarrow> keeps R m"
  unfolding keeps_def by (metis prod.collapse)

lemma keepsD: "keeps R m \<Longrightarrow> m s = (r, s') \<Longrightarrow> R s s'"
  unfolding keeps_def by (metis snd_conv)

lemma keeps_ok: "reflp R \<Longrightarrow> keeps R (ok a)"
  by (simp add: keeps_def ok_def reflpD)

lemma keeps_raise: "reflp R \<Longrightarrow> keeps R (raise e)"
  by (simp add: keeps_def raise_def reflpD)

lemma keeps_then_do:
  assumes "transp R" "keeps R m" "\<And>a. keeps R (f a)"
  shows "keeps R (then_do m f)"
proof (rule keepsI)
  fix s r s' assume run: "then_do m f s = (r, s')"
  obtain r1 s1 where m: "m s = (r1, s1)" by (cases "m s")
  have 1: "R s s1" using keepsD [OF assms(2) m] .
  show "R s s'"
  proof (cases r1)
    case (Inl e)
    with run m have "s' = s1" by (simp add: then_do_def)
    with 1 show ?thesis by simp
  next
    case (Inr a)
    with run m have "f a s1 = (r, s')" by (simp add: then_do_def)
    from keepsD [OF assms(3) this] 1 assms(1) show ?thesis by (meson transpD)
  qed
qed

lemma keeps_try_except:
  assumes "transp R" "keeps R m" "\<And>e. keeps R (h e)"
  shows "keeps R (try_except m h)"
proof (rule keepsI)
  fix s r s' assume run: "try_except m h s = (r, s')"
  obtain r1 s1 where m: "m s = (r1, s1)" by (cases "m s")
  have 1: "R s s1" using keepsD [OF assms(2) m] .
  show "R s s'"
  proof (cases r1)
    case (Inr a)
    with run m have "s' = s1" by (simp add: try_except_def)
    with 1 show ?thesis by simp
  next
    case (Inl e)
    with run m have "h e s1 = (r, s')" by (simp add: try_except_def)
    from keepsD [OF assms(3) this] 1 assms(1) show ?thesis by (meson transpD)
  qed
qed

lemma keeps_on_browser: "browser_closed R \<Longrightarrow> keeps R (on_browser m)"
  by (auto simp: keeps_def on_browser_def browser_closed_def split: prod.splits)

lemma keeps_modify: "(\<And>s. R s (f s)) \<Longrightarrow> keeps R (modify f)"
  by (simp add: keeps_def modify_def)

lemma keeps_if: "keeps R m \<Longrightarrow> keeps R n \<Longrightarrow> keeps R (\<lambda>s. if c s then m s else n s)"
  by (simp add: keeps_def)

lemma browser_closed_only_browser: "browser_closed only_browser"
  unfolding browser_closed_def reflp_def transp_def only_browser_def
proof (intro conjI allI impI)
  fix s :: "'a hh"
  have "s = s\<lparr>browser := browser s\<rparr>" by simp
  then show "\<exists>w. s = s\<lparr>browser := w\<rparr>" ..
next
  fix s :: "'a hh" and w
  show "\<exists>w'. s\<lparr>browser := w\<rparr> = s\<lparr>browser := w'\<rparr>" by blast
next
  fix x y z :: "'a hh"
  assume "\<exists>w. y = x\<lparr>browser := w\<rparr>" "\<exists>w. z = y\<lparr>browser := w\<rparr>"
  then obtain w w' where "y = x\<lparr>browser := w\<rparr>" "z = y\<lparr>browser := w'\<rparr>" by blast
  then have "z = x\<lparr>browser := w'\<rparr>" by simp
  then show "\<exists>w. z = x\<lparr>browser := w\<rparr>" ..
qed

lemma browser_closed_books_step: "browser_closed (books_step v)"
  unfolding browser_closed_def reflp_def transp_def
proof (intro conjI allI impI)
  fix s :: "'a hh"
  have "applied_file s = applied_file s @ replicate 0 v" by simp
  then show "books_step v s s" unfolding books_step_def by blast
next
  fix s :: "'a hh" and w
  have "applied_file s = applied_file s @ replicate 0 v" by simp
  then show "books_step v s (s\<lparr>browser := w\<rparr>)" unfolding books_step_def by auto
next
  fix x y z :: "'a hh"
  assume a: "books_step v x y" and b: "books_step v y z"
  from a obtain n where n: "applied_file y = applied_file x @ replicate n v"
    unfolding books_step_def by blast
  from b obtain k where k: "applied_file z = applied_file y @ replicate k v"
    unfolding books_step_def by blast
  have f: "applied_file z = applied_file x @ replicate (n + k) v"
    by (simp add: n k replicate_add)
  from a b have rest: "applied_count x \<le> applied_count z \<and> skipped_count x \<le> skipped_count z
      \<and> error_count x \<le> error_count z
      \<and> applied_vacancies x \<subseteq> applied_vacancies z
      \<and> applied_vacancies z \<subseteq> insert v (applied_vacancies x)
      \<and> driver_set z = driver_set x"
    unfolding books_step_def by auto
  from rest f show "books_step v x z" unfolding books_step_def by blast
qed


lemma browser_closedD:
  "browser_closed R \<Longrightarrow> reflp R" "browser_closed R \<Longrightarrow> transp R"
  by (simp_all add: browser_closed_def)

lemma keeps_find_apply_button:
  assumes "browser_closed R"
  shows "keeps R (find_apply_button d selectors)"
proof (induction selectors)
  case Nil
  show ?case using assms by (simp add: keeps_def browser_closed_def reflpD)
next
  case (Cons selector selectors)
  show ?case
  proof (rule keepsI)
    fix s r s' assume run: "find_apply_button d (selector # selectors) s = (r, s')"
    obtain r1 s1 where w: "on_browser (wait_clickable d selector) s = (r1, s1)"
      by (cases "on_browser (wait_clickable d selector) s")
    have 1: "R s s1" using keepsD [OF keeps_on_browser [OF assms] w] .
    show "R s s'"
    proof (cases "r1 = Inl TimeoutException")
      case True
      with run w have "find_apply_button d selectors s1 = (r, s')" by simp
      from keepsD [OF Cons.IH this] 1 browser_closedD(2) [OF assms] show ?thesis
        by (meson transpD)
    next
      case False
      with run w have "s' = s1" by (cases r1) (auto split: if_splits)
      with 1 show ?thesis by simp
    qed
  qed
qed

lemma keeps_return_to_search:
  "browser_closed R \<Longrightarrow> keeps R (return_to_search d r b)"
  unfolding return_to_search_def
  by (intro keeps_then_do keeps_on_browser keeps_ok browser_closedD)

lemma keeps_dismiss_cookies: "browser_closed R \<Longrightarrow> keeps R (dismiss_cookies d)"
  unfolding dismiss_cookies_def
  by (intro keeps_try_except keeps_then_do keeps_on_browser browser_closedD
      | simp add: keeps_ok keeps_raise keeps_on_browser browser_closedD keeps_then_do keeps_try_except)+

lemma keeps_fill_cover_letter: "browser_closed R \<Longrightarrow> keeps R (fill_cover_letter d cfg)"
  unfolding fill_cover_letter_def
  by (intro keeps_try_except keeps_then_do keeps_on_browser browser_closedD
      | simp add: keeps_ok keeps_raise browser_closedD)+

lemma books_stepI:
  "applied_count s \<le> applied_count s' \<Longrightarrow> skipped_count s \<le> skipped_count s' \<Longrightarrow>
   error_count s \<le> error_count s' \<Longrightarrow> applied_vacancies s \<subseteq> applied_vacancies s' \<Longrightarrow>
   applied_vacancies s' \<subseteq> insert v (applied_vacancies s) \<Longrightarrow>
   applied_file s' = applied_file s @ replicate n v \<Longrightarrow> driver_set s' = driver_set s \<Longrightarrow>
   books_step v s s'"
  unfolding books_step_def by blast

lemma books_step_save: "keeps (books_step v) (save_applied_vacancy v)"
  unfolding save_applied_vacancy_def
  by (rule keeps_modify, rule books_stepI [where n = 1]) auto

lemma books_step_count_skipped: "keeps (books_step v) count_skipped"
  unfolding count_skipped_def
  by (rule keeps_modify, rule books_stepI [where n = 0]) auto

lemma books_step_count_error: "keeps (books_step v) count_error"
  unfolding count_error_def
  by (rule keeps_modify, rule books_stepI [where n = 0]) auto

lemma books_step_count_applied: "keeps (books_step v) count_applied"
  unfolding count_applied_def
  by (rule keeps_modify, rule books_stepI [where n = 0]) auto

lemmas books_step_count =
  books_step_count_skipped books_step_count_error books_step_count_applied

lemmas books_closed = browser_closedD [OF browser_closed_books_step]

lemma books_step_no_apply_button: "keeps (books_step v) (no_apply_button d v r)"
  unfolding no_apply_button_def
  by (intro keeps_try_except keeps_then_do books_step_save books_step_count books_closed
        keeps_return_to_search browser_closed_books_step keeps_on_browser
      | simp add: keeps_raise books_closed keeps_then_do books_step_count
          keeps_return_to_search browser_closed_books_step)+

lemma books_step_record_applied: "keeps (books_step v) (record_applied d v r)"
  unfolding record_applied_def
  by (intro keeps_then_do books_step_save books_step_count books_closed
        keeps_return_to_search browser_closed_books_step)

lemma books_step_confirm_response: "keeps (books_step v) (confirm_response d v r)"
  unfolding confirm_response_def
  by (intro keeps_try_except keeps_then_do books_closed keeps_on_browser
        browser_closed_books_step books_step_record_applied
      | simp add: keeps_raise books_closed books_step_record_applied keeps_on_browser
          browser_closed_books_step)+

lemma books_step_click_and_submit: "keeps (books_step v) (click_and_submit d cfg v r b)"
  unfolding click_and_submit_def
  by (intro keeps_then_do keeps_if books_closed keeps_on_browser browser_closed_books_step
        books_step_count keeps_return_to_search keeps_dismiss_cookies keeps_fill_cover_letter
        books_step_confirm_response)

lemma books_step_process_opened: "keeps (books_step v) (process_opened d cfg v r)"
  unfolding process_opened_def
  by (intro keeps_then_do keeps_if books_closed keeps_find_apply_button
        browser_closed_books_step books_step_count keeps_return_to_search
      | simp add: books_step_no_apply_button books_step_click_and_submit split: option.split)+

lemma books_step_apply_body:
  "keeps (books_step (vacancy_id_of url)) (apply_body d cfg url r)"
  unfolding apply_body_def Let_def
  by (intro keeps_then_do keeps_if books_closed keeps_on_browser browser_closed_books_step
        books_step_count keeps_ok books_step_process_opened)

section \<open>The listing processor\<close>

lemma returnsI: "(\<And>s a s'. m s = (Inr a, s') \<Longrightarrow> Q a s') \<Longrightarrow> returns Q m"
  unfolding returns_def by blast

lemma returnsD: "returns Q m \<Longrightarrow> m s = (Inr a, s') \<Longrightarrow> Q a s'"
  unfolding returns_def by blast

lemma returns_raise: "returns Q (raise e)"
  by (simp add: returns_def raise_def)

lemma returns_then_do:
  assumes "\<And>a. returns Q (f a)"
  shows "returns Q (then_do m f)"
proof (rule returnsI)
  fix s b s' assume run: "then_do m f s = (Inr b, s')"
  obtain r1 s1 where m: "m s = (r1, s1)" by (cases "m s")
  show "Q b s'"
  proof (cases r1)
    case (Inl e)
    with run m show ?thesis by (simp add: then_do_def)
  next
    case (Inr a)
    with run m have "f a s1 = (Inr b, s')" by (simp add: then_do_def)
    from returnsD [OF assms this] show ?thesis .
  qed
qed

lemma returns_try_except:
  assumes "returns Q m" "\<And>e. returns Q (h e)"
  shows "returns Q (try_except m h)"
proof (rule returnsI)
  fix s b s' assume run: "try_except m h s = (Inr b, s')"
  obtain r1 s1 where m: "m s = (r1, s1)" by (cases "m s")
  show "Q b s'"
  proof (cases r1)
    case (Inr a)
    with run m have "m s = (Inr b, s')" by (simp add: try_except_def)
    from returnsD [OF assms(1) this] show ?thesis .
  next
    case (Inl e)
    with run m have "h e s1 = (Inr b, s')" by (simp add: try_except_def)
    from returnsD [OF assms(2) this] show ?thesis .
  qed
qed

lemma returns_if: "returns Q m \<Longrightarrow> returns Q n \<Longrightarrow> returns Q (\<lambda>s. if c s then m s else n s)"
  by (simp add: returns_def)

lemma came_back_return_to_search: "returns (came_back d r) (return_to_search d r b)"
  by (rule returnsI)
     (auto simp: return_to_search_def then_do_def on_browser_def ok_def came_back_def
       split: prod.splits sum.splits)

lemma recorded_return_to_search: "returns (applied_recorded v) (return_to_search d r False)"
  by (rule returnsI)
     (auto simp: return_to_search_def then_do_def on_browser_def ok_def applied_recorded_def
       split: prod.splits sum.splits)

lemma recorded_record_applied: "returns (applied_recorded v) (record_applied d v r)"
  by (rule returnsI)
     (auto simp: record_applied_def return_to_search_def then_do_def on_browser_def ok_def
       save_applied_vacancy_def count_applied_def modify_def applied_recorded_def
       split: prod.splits sum.splits)

lemma came_back_record_applied: "returns (came_back d r) (record_applied d v r)"
  unfolding record_applied_def
  by (intro returns_then_do came_back_return_to_search)

lemma came_back_no_apply_button: "returns (came_back d r) (no_apply_button d v r)"
  unfolding no_apply_button_def
  by (intro returns_try_except returns_then_do came_back_return_to_search
      | simp add: returns_raise returns_then_do came_back_return_to_search)+

lemma recorded_no_apply_button: "returns (applied_recorded v) (no_apply_button d v r)"
  unfolding no_apply_button_def
  by (intro returns_try_except returns_then_do recorded_return_to_search
      | simp add: returns_raise returns_then_do recorded_return_to_search)+

lemma came_back_confirm_response: "returns (came_back d r) (confirm_response d v r)"
  unfolding confirm_response_def
  by (intro returns_try_except returns_then_do came_back_record_applied
      | simp add: returns_raise came_back_record_applied)+

lemma recorded_confirm_response: "returns (applied_recorded v) (confirm_response d v r)"
  unfolding confirm_response_def
  by (intro returns_try_except returns_then_do recorded_record_applied
      | simp add: returns_raise recorded_record_applied)+

lemma came_back_click_and_submit: "returns (came_back d r) (click_and_submit d cfg v r b)"
  unfolding click_and_submit_def
  by (intro returns_then_do returns_if came_back_return_to_search came_back_confirm_response)

lemma recorded_click_and_submit: "returns (applied_recorded v) (click_and_submit d cfg v r b)"
  unfolding click_and_submit_def
  by (intro returns_then_do returns_if recorded_return_to_search recorded_confirm_response)

lemma came_back_process_opened: "returns (came_back d r) (process_opened d cfg v r)"
  unfolding process_opened_def
  by (intro returns_then_do returns_if came_back_return_to_search
      | simp add: came_back_no_apply_button came_back_click_and_submit split: option.split)+

lemma recorded_process_opened: "returns (applied_recorded v) (process_opened d cfg v r)"
  unfolding process_opened_def
  by (intro returns_then_do returns_if recorded_return_to_search
      | simp add: recorded_no_apply_button recorded_click_and_submit split: option.split)+

text \<open>The two ways through the body of the \<open>try\<close>.\<close>

lemma apply_body_skip:
  assumes "skip_already_applied (settings cfg)" "vacancy_id_of url \<in> applied_vacancies s"
  shows "apply_body d cfg url r s = (Inr False, s\<lparr>skipped_count := skipped_count s + 1\<rparr>)"
  using assms
  by (simp add: apply_body_def Let_def then_do_def count_skipped_def modify_def ok_def)

lemma apply_body_open:
  assumes "\<not> (skip_already_applied (settings cfg) \<and> vacancy_id_of url \<in> applied_vacancies s)"
  shows "apply_body d cfg url r s
           = then_do (on_browser (navigate d url))
               (\<lambda>_. process_opened d cfg (vacancy_id_of url) r) s"
  using assms by (auto simp add: apply_body_def Let_def)

lemma apply_body_returns:
  assumes "\<not> (skip_already_applied (settings cfg) \<and> vacancy_id_of url \<in> applied_vacancies s)"
    and "apply_body d cfg url r s = (Inr b, s')"
  shows "came_back d r b s' \<and> applied_recorded (vacancy_id_of url) b s'"
proof -
  let ?m = "then_do (on_browser (navigate d url))
              (\<lambda>_. process_opened d cfg (vacancy_id_of url) r)"
  have run: "?m s = (Inr b, s')" using assms by (simp add: apply_body_open)
  have "returns (came_back d r) ?m" "returns (applied_recorded (vacancy_id_of url)) ?m"
    by (intro returns_then_do came_back_process_opened recorded_process_opened)+
  from returnsD [OF this(1) run] returnsD [OF this(2) run] show ?thesis by simp
qed

lemma apply_to_vacancy_skip:
  assumes "skip_already_applied (settings cfg)" "vacancy_id_of url \<in> applied_vacancies s"
  shows "apply_to_vacancy d cfg url ret s = (False, s\<lparr>skipped_count := skipped_count s + 1\<rparr>)"
  by (simp add: apply_to_vacancy_def Let_def apply_body_skip [OF assms])

lemma apply_to_vacancy_books:
  assumes "apply_to_vacancy d cfg url ret s = (b, s')"
  shows "books_step (vacancy_id_of url) s s'"
proof -
  let ?r = "return_location d ret s" and ?v = "vacancy_id_of url"
  obtain r1 s1 where body: "apply_body d cfg url ?r s = (r1, s1)"
    by (cases "apply_body d cfg url ?r s")
  have 1: "books_step ?v s s1" using keepsD [OF books_step_apply_body body] .
  show ?thesis
  proof (cases r1)
    case (Inr a)
    with assms body have "s' = s1" by (simp add: apply_to_vacancy_def Let_def)
    with 1 show ?thesis by simp
  next
    case (Inl e)
    obtain r2 s2 where h: "then_do count_error (\<lambda>_. on_browser (navigate d ?r)) s1 = (r2, s2)"
      by (cases "then_do count_error (\<lambda>_. on_browser (navigate d ?r)) s1")
    have "keeps (books_step ?v) (then_do count_error (\<lambda>_. on_browser (navigate d ?r)))"
      by (intro keeps_then_do books_closed books_step_count keeps_on_browser
          browser_closed_books_step)
    from keepsD [OF this h] have 2: "books_step ?v s1 s2" .
    from assms body Inl h have "s' = s2" by (simp add: apply_to_vacancy_def Let_def)
    with 1 2 books_closed(2) [of ?v] show ?thesis by (meson transpD)
  qed
qed

lemma apply_to_vacancy_cases:
  assumes run: "apply_to_vacancy d cfg url ret s = (b, s')"
    and open_it: "\<not> (skip_already_applied (settings cfg) \<and> vacancy_id_of url \<in> applied_vacancies s)"
  shows "(came_back d (return_location d ret s) b s' \<and> applied_recorded (vacancy_id_of url) b s')
       \<or> (\<not> b \<and> error_count s < error_count s'
           \<and> (\<exists>w res. navigate d (return_location d ret s) w = (res, browser s')))"
proof -
  let ?r = "return_location d ret s" and ?v = "vacancy_id_of url"
  obtain r1 s1 where body: "apply_body d cfg url ?r s = (r1, s1)"
    by (cases "apply_body d cfg url ?r s")
  show ?thesis
  proof (cases r1)
    case (Inr a)
    with run body have eq: "b = a" "s' = s1" by (simp_all add: apply_to_vacancy_def Let_def)
    from apply_body_returns [OF open_it] body Inr eq show ?thesis by simp
  next
    case (Inl e)
    have 1: "error_count s \<le> error_count s1"
      using keepsD [OF books_step_apply_body body] by (simp add: books_step_def)
    obtain res w where nav: "navigate d ?r (browser s1) = (res, w)"
      by (cases "navigate d ?r (browser s1)")
    from run body Inl nav have eq: "b = False"
      "s' = s1\<lparr>error_count := error_count s1 + 1, browser := w\<rparr>"
      by (simp_all add: apply_to_vacancy_def Let_def then_do_def count_error_def modify_def
          on_browser_def)
    from eq 1 nav show ?thesis by auto
  qed
qed

section \<open>Claims about the listing processor\<close>

lemma only_browserD: "keeps only_browser m \<Longrightarrow> m s = (r, s') \<Longrightarrow> s' = s\<lparr>browser := browser s'\<rparr>"
  by (drule (1) keepsD) (auto simp: only_browser_def)

text \<open>
  Claim C1, as amended. A call that takes the ledger skip leaves the browser as it was.
  Every other call ends with a navigation to the return location as its last action on
  the browser; when the call counted no error that navigation did not raise, and the
  browser is at the return location if a navigation to it that does not raise lands
  there. (When an error is counted the last navigation may itself have raised, which the
  handler swallows.)
\<close>

theorem apply_to_vacancy_return_navigation:
  assumes run: "apply_to_vacancy d cfg vacancy_url search_page_url s = (result, s')"
    and faithful: "\<forall>w w'. navigate d (return_location d search_page_url s) w = (Inr (), w')
                     \<longrightarrow> current_url d w' = return_location d search_page_url s"
  shows "if skip_already_applied (settings cfg) \<and> vacancy_id_of vacancy_url \<in> applied_vacancies s
         then browser s' = browser s
         else (\<exists>w res. navigate d (return_location d search_page_url s) w = (res, browser s'))
              \<and> (error_count s' = error_count s
                   \<longrightarrow> current_url d (browser s') = return_location d search_page_url s)"
proof (cases "skip_already_applied (settings cfg) \<and> vacancy_id_of vacancy_url \<in> applied_vacancies s")
  case True
  then have "apply_to_vacancy d cfg vacancy_url search_page_url s
               = (False, s\<lparr>skipped_count := skipped_count s + 1\<rparr>)"
    by (simp add: apply_to_vacancy_skip)
  with run have "s' = s\<lparr>skipped_count := skipped_count s + 1\<rparr>" by simp
  then have "browser s' = browser s" by simp
  then show ?thesis unfolding if_P [OF True] .
next
  case False
  from apply_to_vacancy_cases [OF run False] faithful
  have "(\<exists>w res. navigate d (return_location d search_page_url s) w = (res, browser s'))
        \<and> (error_count s' = error_count s
             \<longrightarrow> current_url d (browser s') = return_location d search_page_url s)"
    unfolding came_back_def by fastforce
  then show ?thesis unfolding if_not_P [OF False] .
qed

lemma clickable_run:
  "apply_to_vacancy clickable_browser (demo_config True 5) ''https://hh.ru/vacancy/123''
     (Some ''https://hh.ru/search/vacancy?text=python'') (fresh ''https://hh.ru/'')
   = (True, \<lparr>applied_count = 1, skipped_count = 0, error_count = 0,
             applied_vacancies = {''123''}, applied_file = [''123''], driver_set = True,
             browser = ''https://hh.ru/search/vacancy?text=python''\<rparr>)"
  by code_simp

lemma clickable_faithful:
  "\<forall>w w'. navigate clickable_browser r w = (Inr (), w') \<longrightarrow> current_url clickable_browser w' = r"
  by (simp add: clickable_browser_def quiet_browser_def)

lemma fresh_simps:
  "applied_count (fresh w) = 0" "skipped_count (fresh w) = 0" "error_count (fresh w) = 0"
  "applied_vacancies (fresh w) = {}" "applied_file (fresh w) = []" "browser (fresh w) = w"
  by (simp_all add: fresh_def)

theorem apply_to_vacancy_return_navigation_witness:
  "current_url clickable_browser
     (browser (snd (apply_to_vacancy clickable_browser (demo_config True 5)
        ''https://hh.ru/vacancy/123'' (Some ''https://hh.ru/search/vacancy?text=python'')
        (fresh ''https://hh.ru/''))))
   = ''https://hh.ru/search/vacancy?text=python''"
  using apply_to_vacancy_return_navigation [OF clickable_run clickable_faithful]
  by (simp add: clickable_run fresh_simps return_location_def)

text \<open>
  A listing already in the ledger, the browser on the start page: the call is skipped and
  the browser is still on the start page, not on the search page it was to return to.
\<close>

theorem ledger_skip_stays_counterexample:
  "apply_to_vacancy quiet_browser (demo_config True 5) ''https://hh.ru/vacancy/123''
     (Some ''https://hh.ru/search/vacancy?text=python'')
     ((fresh ''https://hh.ru/'')\<lparr>applied_vacancies := {''123''}\<rparr>)
   = (False, \<lparr>applied_count = 0, skipped_count = 1, error_count = 0,
              applied_vacancies = {''123''}, applied_file = [], driver_set = True,
              browser = ''https://hh.ru/''\<rparr>)
   \<and> current_url quiet_browser ''https://hh.ru/'' \<noteq> ''https://hh.ru/search/vacancy?text=python''"
  by code_simp

text \<open>
  Claim C4. When the option to skip is on and the identifier of the listing is in the
  ledger, the call answers \<open>False\<close> and the state after it is the state before with the
  skip counter one higher: for every browser, the browser state, and so its location, is
  the one before the call (no operation of the browser has run), and the ledger, set and
  file, is unchanged.
\<close>

theorem apply_to_vacancy_ledger_skip:
  assumes "skip_already_applied (settings cfg)"
    and "vacancy_id_of vacancy_url \<in> applied_vacancies s"
  shows "apply_to_vacancy d cfg vacancy_url search_page_url s
           = (False, s\<lparr>skipped_count := skipped_count s + 1\<rparr>)
       \<and> browser (snd (apply_to_vacancy d cfg vacancy_url search_page_url s)) = browser s
       \<and> applied_vacancies (snd (apply_to_vacancy d cfg vacancy_url search_page_url s))
           = applied_vacancies s
       \<and> applied_file (snd (apply_to_vacancy d cfg vacancy_url search_page_url s))
           = applied_file s"
  by (simp add: apply_to_vacancy_skip [OF assms])

lemma demo_skip: "skip_already_applied (settings (demo_config True 5))"
  by (simp add: demo_config_def)

lemma demo_known:
  "vacancy_id_of ''https://hh.ru/vacancy/123''
     \<in> applied_vacancies ((fresh ''https://hh.ru/'')\<lparr>applied_vacancies := {''123''}\<rparr>)"
  by code_simp

theorem apply_to_vacancy_ledger_skip_witness:
  "apply_to_vacancy clickable_browser (demo_config True 5) ''https://hh.ru/vacancy/123''
     (Some ''https://hh.ru/search/vacancy?text=python'')
     ((fresh ''https://hh.ru/'')\<lparr>applied_vacancies := {''123''}\<rparr>)
   = (False, \<lparr>applied_count = 0, skipped_count = 1, error_count = 0,
              applied_vacancies = {''123''}, applied_file = [], driver_set = True,
              browser = ''https://hh.ru/''\<rparr>)"
  using apply_to_vacancy_ledger_skip [OF demo_skip demo_known, of clickable_browser
      "Some ''https://hh.ru/search/vacancy?text=python''"]
  by (simp add: fresh_def)


text \<open>
  Claim C3, as amended. With the option to skip on, once a call for a listing has
  answered \<open>True\<close> its identifier is in the ledger, and each of any number of later
  calls for the same listing answers \<open>False\<close>, counts one skip and changes nothing else:
  the ledger, set and file, stays as the first call left it.
\<close>

theorem applied_once_then_skipped:
  assumes skip: "skip_already_applied (settings cfg)"
    and first: "apply_to_vacancy d cfg vacancy_url search_page_url s = (True, s1)"
  shows "vacancy_id_of vacancy_url \<in> applied_vacancies s1
       \<and> apply_times d cfg vacancy_url later_url n s1
           = (replicate n False, s1\<lparr>skipped_count := skipped_count s1 + n\<rparr>)"
proof -
  have fresh_listing:
    "\<not> (skip_already_applied (settings cfg) \<and> vacancy_id_of vacancy_url \<in> applied_vacancies s)"
  proof
    assume "skip_already_applied (settings cfg) \<and> vacancy_id_of vacancy_url \<in> applied_vacancies s"
    then have "apply_to_vacancy d cfg vacancy_url search_page_url s
                 = (False, s\<lparr>skipped_count := skipped_count s + 1\<rparr>)"
      by (simp add: apply_to_vacancy_skip)
    with first show False by simp
  qed
  from apply_to_vacancy_cases [OF first fresh_listing]
  have known: "vacancy_id_of vacancy_url \<in> applied_vacancies s1"
    by (simp add: applied_recorded_def)
  have "vacancy_id_of vacancy_url \<in> applied_vacancies t \<Longrightarrow>
        apply_times d cfg vacancy_url later_url n t
          = (replicate n False, t\<lparr>skipped_count := skipped_count t + n\<rparr>)" for t
  proof (induction n arbitrary: t)
    case 0
    then show ?case by simp
  next
    case (Suc n)
    let ?t = "t\<lparr>skipped_count := skipped_count t + 1\<rparr>"
    have step: "apply_to_vacancy d cfg vacancy_url later_url t = (False, ?t)"
      using skip Suc.prems by (rule apply_to_vacancy_skip)
    have "vacancy_id_of vacancy_url \<in> applied_vacancies ?t" using Suc.prems by simp
    from Suc.IH [OF this] show ?case by (simp add: step)
  qed
  from this [OF known] known show ?thesis by simp
qed

lemma clickable_times:
  "apply_times clickable_browser (demo_config True 5) ''https://hh.ru/vacancy/123''
     (Some ''https://hh.ru/search/vacancy?text=python'') 2
     \<lparr>applied_count = 1, skipped_count = 0, error_count = 0,
       applied_vacancies = {''123''}, applied_file = [''123''], driver_set = True,
       browser = ''https://hh.ru/search/vacancy?text=python''\<rparr>
   = ([False, False],
      \<lparr>applied_count = 1, skipped_count = 2, error_count = 0,
        applied_vacancies = {''123''}, applied_file = [''123''], driver_set = True,
        browser = ''https://hh.ru/search/vacancy?text=python''\<rparr>)"
  by code_simp

theorem applied_once_then_skipped_witness:
  "apply_times clickable_browser (demo_config True 5) ''https://hh.ru/vacancy/123''
     (Some ''https://hh.ru/search/vacancy?text=python'') 2
     (snd (apply_to_vacancy clickable_browser (demo_config True 5) ''https://hh.ru/vacancy/123''
        (Some ''https://hh.ru/search/vacancy?text=python'') (fresh ''https://hh.ru/'')))
   = ([False, False],
      \<lparr>applied_count = 1, skipped_count = 2, error_count = 0,
        applied_vacancies = {''123''}, applied_file = [''123''], driver_set = True,
        browser = ''https://hh.ru/search/vacancy?text=python''\<rparr>)"
  using applied_once_then_skipped [OF demo_skip clickable_run,
      of "Some ''https://hh.ru/search/vacancy?text=python''" 2]
  by (simp add: clickable_run numeral_2_eq_2)

text \<open>
  With the option to skip off, the second call for the same listing applies again, and
  the ledger file holds the identifier twice.
\<close>

theorem applied_twice_counterexample:
  "apply_times clickable_browser (demo_config False 5) ''https://hh.ru/vacancy/123''
     (Some ''https://hh.ru/search/vacancy?text=python'') 2
     (fresh ''https://hh.ru/search/vacancy?text=python'')
   = ([True, True],
      \<lparr>applied_count = 2, skipped_count = 0, error_count = 0,
        applied_vacancies = {''123''}, applied_file = [''123'', ''123''], driver_set = True,
        browser = ''https://hh.ru/search/vacancy?text=python''\<rparr>)"
  by code_simp

text \<open>
  Claim C10 fails on the code. The browser shows the already-applied marker and the
  return to the search page raises: the call has counted a skip before the navigation
  and counts an error in the outer handler.
\<close>

theorem skip_and_error_counted:
  "apply_to_vacancy marker_browser (demo_config True 5) ''https://hh.ru/vacancy/123''
     (Some ''https://hh.ru/search/vacancy?text=python'')
     (fresh ''https://hh.ru/search/vacancy?text=python'')
   = (False, \<lparr>applied_count = 0, skipped_count = 1, error_count = 1,
              applied_vacancies = {''123''}, applied_file = [''123''], driver_set = True,
              browser = ''https://hh.ru/vacancy/123''\<rparr>)"
  by code_simp

text \<open>
  Claim C5. The listing is not skipped by the ledger, it opens, the apply control is found,
  scrolled to and clicked, neither check finds the response form, and the cookie banner
  and the cover letter raise nothing. If then the wait for the submission control runs
  out, and the return to the search page does not raise, the call answers \<open>True\<close>
  and the identifier is recorded; the books are the same as when the control is found,
  scrolled to and clicked.
\<close>

theorem submit_control_absent_still_applied:
  assumes fresh_listing:
      "\<not> (skip_already_applied (settings cfg) \<and> vacancy_id_of vacancy_url \<in> applied_vacancies s)"
    and given: "search_page_url \<noteq> []"
    and opened: "navigate d vacancy_url (browser s) = (Inr (), w1)"
    and no_form: "\<not> is_response_form (current_url d w1)"
    and button: "find_apply_button d apply_selectors (s\<lparr>browser := w1\<rparr>) = (Inr (Some apply_button), s2)"
    and scrolled: "execute_script d js_scroll_into_view apply_button (browser s2) = (Inr (), w3)"
    and clicked: "click d apply_button w3 = (Inr (), w4)"
    and still_no_form: "\<not> is_response_form (current_url d w4)"
    and cookies: "dismiss_cookies d (s2\<lparr>browser := w4\<rparr>) = (Inr (), s5)"
    and letter: "fill_cover_letter d cfg s5 = (Inr (), s6)"
  shows "(wait_present d submit_selector (browser s6) = (Inl TimeoutException, w7)
          \<and> navigate d search_page_url w7 = (Inr (), w8)
          \<longrightarrow> apply_to_vacancy d cfg vacancy_url (Some search_page_url) s
                = (True, recorded (vacancy_id_of vacancy_url) s w8))
       \<and> (wait_present d submit_selector (browser s6) = (Inr submit_button, w7)
          \<and> execute_script d js_scroll_center submit_button w7 = (Inr (), w8)
          \<and> click d submit_button w8 = (Inr (), w9)
          \<and> navigate d search_page_url w9 = (Inr (), w10)
          \<longrightarrow> apply_to_vacancy d cfg vacancy_url (Some search_page_url) s
                = (True, recorded (vacancy_id_of vacancy_url) s w10))"
proof -
  let ?v = "vacancy_id_of vacancy_url"
  have s2: "s2 = s\<lparr>browser := browser s2\<rparr>"
    using only_browserD [OF keeps_find_apply_button [OF browser_closed_only_browser] button]
    by simp
  have s5: "s5 = s\<lparr>browser := browser s5\<rparr>"
    using only_browserD [OF keeps_dismiss_cookies [OF browser_closed_only_browser] cookies]
    by (subst (asm) s2) simp
  have s6: "s6 = s\<lparr>browser := browser s6\<rparr>"
    using only_browserD [OF keeps_fill_cover_letter [OF browser_closed_only_browser] letter]
    by (subst (asm) s5) simp
  have to_confirm:
    "apply_body d cfg vacancy_url search_page_url s
       = confirm_response d ?v search_page_url s6"
    using fresh_listing opened no_form button scrolled clicked still_no_form cookies letter
    by (simp add: apply_body_open process_opened_def click_and_submit_def then_do_def
        on_browser_def)
  have absent: "confirm_response d ?v search_page_url s6 = (Inr True, recorded ?v s w8)"
    if "wait_present d submit_selector (browser s6) = (Inl TimeoutException, w7)"
      and "navigate d search_page_url w7 = (Inr (), w8)"
    using that
    by (subst s6)
       (simp add: confirm_response_def record_applied_def return_to_search_def try_except_def
         then_do_def on_browser_def ok_def save_applied_vacancy_def count_applied_def
         modify_def recorded_def)
  have found: "confirm_response d ?v search_page_url s6 = (Inr True, recorded ?v s w10)"
    if "wait_present d submit_selector (browser s6) = (Inr submit_button, w7)"
      and "execute_script d js_scroll_center submit_button w7 = (Inr (), w8)"
      and "click d submit_button w8 = (Inr (), w9)"
      and "navigate d search_page_url w9 = (Inr (), w10)"
    using that
    by (subst s6)
       (simp add: confirm_response_def record_applied_def return_to_search_def try_except_def
         then_do_def on_browser_def ok_def save_applied_vacancy_def count_applied_def
         modify_def recorded_def)
  show ?thesis
    using given absent found
    by (auto simp: apply_to_vacancy_def return_location_def Let_def to_confirm)
qed


lemma demo_fresh_listing:
  "\<not> (skip_already_applied (settings (demo_config True 5))
        \<and> vacancy_id_of ''https://hh.ru/vacancy/123'' \<in> applied_vacancies (fresh ''https://hh.ru/''))"
  by (simp add: fresh_simps)

lemma clickable_path:
  "navigate clickable_browser ''https://hh.ru/vacancy/123'' (browser (fresh ''https://hh.ru/''))
     = (Inr (), ''https://hh.ru/vacancy/123'')"
  "\<not> is_response_form (current_url clickable_browser ''https://hh.ru/vacancy/123'')"
  "find_apply_button clickable_browser apply_selectors
     ((fresh ''https://hh.ru/'')\<lparr>browser := ''https://hh.ru/vacancy/123''\<rparr>)
     = (Inr (Some 1), fresh ''https://hh.ru/vacancy/123'')"
  "execute_script clickable_browser js_scroll_into_view 1
     (browser (fresh ''https://hh.ru/vacancy/123'')) = (Inr (), ''https://hh.ru/vacancy/123'')"
  "click clickable_browser 1 ''https://hh.ru/vacancy/123'' = (Inr (), ''https://hh.ru/vacancy/123'')"
  "dismiss_cookies clickable_browser
     ((fresh ''https://hh.ru/vacancy/123'')\<lparr>browser := ''https://hh.ru/vacancy/123''\<rparr>)
     = (Inr (), fresh ''https://hh.ru/vacancy/123'')"
  "fill_cover_letter clickable_browser (demo_config True 5) (fresh ''https://hh.ru/vacancy/123'')
     = (Inr (), fresh ''https://hh.ru/vacancy/123'')"
  "wait_present clickable_browser submit_selector (browser (fresh ''https://hh.ru/vacancy/123''))
     = (Inl TimeoutException, ''https://hh.ru/vacancy/123'')"
  "navigate clickable_browser ''https://hh.ru/search/vacancy?text=python''
     ''https://hh.ru/vacancy/123'' = (Inr (), ''https://hh.ru/search/vacancy?text=python'')"
  by code_simp+

lemma submit_path:
  "navigate submit_browser ''https://hh.ru/vacancy/123'' (browser (fresh ''https://hh.ru/''))
     = (Inr (), ''https://hh.ru/vacancy/123'')"
  "\<not> is_response_form (current_url submit_browser ''https://hh.ru/vacancy/123'')"
  "find_apply_button submit_browser apply_selectors
     ((fresh ''https://hh.ru/'')\<lparr>browser := ''https://hh.ru/vacancy/123''\<rparr>)
     = (Inr (Some 1), fresh ''https://hh.ru/vacancy/123'')"
  "execute_script submit_browser js_scroll_into_view 1
     (browser (fresh ''https://hh.ru/vacancy/123'')) = (Inr (), ''https://hh.ru/vacancy/123'')"
  "click submit_browser 1 ''https://hh.ru/vacancy/123'' = (Inr (), ''https://hh.ru/vacancy/123'')"
  "dismiss_cookies submit_browser
     ((fresh ''https://hh.ru/vacancy/123'')\<lparr>browser := ''https://hh.ru/vacancy/123''\<rparr>)
     = (Inr (), fresh ''https://hh.ru/vacancy/123'')"
  "fill_cover_letter submit_browser (demo_config True 5) (fresh ''https://hh.ru/vacancy/123'')
     = (Inr (), fresh ''https://hh.ru/vacancy/123'')"
  "wait_present submit_browser submit_selector (browser (fresh ''https://hh.ru/vacancy/123''))
     = (Inr 2, ''https://hh.ru/vacancy/123'')"
  "execute_script submit_browser js_scroll_center 2 ''https://hh.ru/vacancy/123''
     = (Inr (), ''https://hh.ru/vacancy/123'')"
  "click submit_browser 2 ''https://hh.ru/vacancy/123'' = (Inr (), ''https://hh.ru/vacancy/123'')"
  "navigate submit_browser ''https://hh.ru/search/vacancy?text=python''
     ''https://hh.ru/vacancy/123'' = (Inr (), ''https://hh.ru/search/vacancy?text=python'')"
  by code_simp+

lemma search_url_given: "''https://hh.ru/search/vacancy?text=python'' \<noteq> []"
  by simp

theorem submit_control_absent_still_applied_witness:
  "apply_to_vacancy clickable_browser (demo_config True 5) ''https://hh.ru/vacancy/123''
     (Some ''https://hh.ru/search/vacancy?text=python'') (fresh ''https://hh.ru/'')
   = (True, recorded (vacancy_id_of ''https://hh.ru/vacancy/123'') (fresh ''https://hh.ru/'')
              ''https://hh.ru/search/vacancy?text=python'')
   \<and> apply_to_vacancy submit_browser (demo_config True 5) ''https://hh.ru/vacancy/123''
     (Some ''https://hh.ru/search/vacancy?text=python'') (fresh ''https://hh.ru/'')
   = (True, recorded (vacancy_id_of ''https://hh.ru/vacancy/123'') (fresh ''https://hh.ru/'')
              ''https://hh.ru/search/vacancy?text=python'')"
  using
    submit_control_absent_still_applied [OF demo_fresh_listing search_url_given
      clickable_path(1-4) clickable_path(5) clickable_path(2) clickable_path(6,7),
      where ?w7.0 = "''https://hh.ru/vacancy/123''"
        and ?w8.0 = "''https://hh.ru/search/vacancy?text=python''"]
    submit_control_absent_still_applied [OF demo_fresh_listing search_url_given
      submit_path(1-4) submit_path(5) submit_path(2) submit_path(6,7),
      where submit_button = 2 and ?w7.0 = "''https://hh.ru/vacancy/123''"
        and ?w8.0 = "''https://hh.ru/vacancy/123''" and ?w9.0 = "''https://hh.ru/vacancy/123''"
        and ?w10.0 = "''https://hh.ru/search/vacancy?text=python''"]
    clickable_path(8,9) submit_path(8-11)
  by simp

text \<open>
  Claim C9. The identifier the listing processor derives is the last segment of the URL
  between slashes, cut at its first question mark; for a URL that ends in a slash it is
  the empty string. It is this identifier that the ledger is asked for before a skip,
  the only identifier a call can add to the ledger, and the one a call that answers
  \<open>True\<close> has added.
\<close>

theorem vacancy_id_is_last_segment:
  "vacancy_id_of vacancy_url = listing_identifier vacancy_url
   \<and> vacancy_id_of (vacancy_url @ ''/'') = []
   \<and> (skip_already_applied (settings cfg) \<and> listing_identifier vacancy_url \<in> applied_vacancies s
        \<longrightarrow> apply_to_vacancy d cfg vacancy_url search_page_url s
              = (False, s\<lparr>skipped_count := skipped_count s + 1\<rparr>))
   \<and> (apply_to_vacancy d cfg vacancy_url search_page_url s = (result, s')
        \<longrightarrow> applied_vacancies s \<subseteq> applied_vacancies s'
            \<and> applied_vacancies s' \<subseteq> insert (listing_identifier vacancy_url) (applied_vacancies s)
            \<and> (result \<longrightarrow> listing_identifier vacancy_url \<in> applied_vacancies s'))"
proof (intro conjI impI)
  show "vacancy_id_of vacancy_url = listing_identifier vacancy_url"
    by (rule vacancy_id_of_eq)
  show "vacancy_id_of (vacancy_url @ ''/'') = []"
    by (rule vacancy_id_trailing)
next
  assume "skip_already_applied (settings cfg) \<and> listing_identifier vacancy_url \<in> applied_vacancies s"
  then show "apply_to_vacancy d cfg vacancy_url search_page_url s
               = (False, s\<lparr>skipped_count := skipped_count s + 1\<rparr>)"
    by (simp add: apply_to_vacancy_skip vacancy_id_of_eq)
next
  assume run: "apply_to_vacancy d cfg vacancy_url search_page_url s = (result, s')"
  from apply_to_vacancy_books [OF run]
  show "applied_vacancies s \<subseteq> applied_vacancies s'"
    "applied_vacancies s' \<subseteq> insert (listing_identifier vacancy_url) (applied_vacancies s)"
    by (simp_all add: books_step_def vacancy_id_of_eq)
  assume result
  show "listing_identifier vacancy_url \<in> applied_vacancies s'"
  proof (cases "skip_already_applied (settings cfg) \<and> vacancy_id_of vacancy_url \<in> applied_vacancies s")
    case True
    then have "apply_to_vacancy d cfg vacancy_url search_page_url s
                 = (False, s\<lparr>skipped_count := skipped_count s + 1\<rparr>)"
      by (simp add: apply_to_vacancy_skip)
    with run \<open>result\<close> show ?thesis by simp
  next
    case False
    from apply_to_vacancy_cases [OF run False] \<open>result\<close> show ?thesis
      by (simp add: applied_recorded_def vacancy_id_of_eq)
  qed
qed

lemma trailing_slash_run:
  "apply_to_vacancy clickable_browser (demo_config True 5) ''https://hh.ru/vacancy/''
     (Some ''https://hh.ru/search/vacancy?text=python'') (fresh ''https://hh.ru/'')
   = (True, \<lparr>applied_count = 1, skipped_count = 0, error_count = 0,
             applied_vacancies = {[]}, applied_file = [[]], driver_set = True,
             browser = ''https://hh.ru/search/vacancy?text=python''\<rparr>)"
  by code_simp

theorem vacancy_id_is_last_segment_witness:
  "vacancy_id_of (''https://hh.ru/vacancy'' @ ''/'') = []
   \<and> listing_identifier ''https://hh.ru/vacancy/''
       \<in> applied_vacancies (snd (apply_to_vacancy clickable_browser (demo_config True 5)
            ''https://hh.ru/vacancy/'' (Some ''https://hh.ru/search/vacancy?text=python'')
            (fresh ''https://hh.ru/'')))"
  using vacancy_id_is_last_segment [of "''https://hh.ru/vacancy/''" "demo_config True 5"
      "fresh ''https://hh.ru/''" clickable_browser
      "Some ''https://hh.ru/search/vacancy?text=python''" True
      "snd (apply_to_vacancy clickable_browser (demo_config True 5)
            ''https://hh.ru/vacancy/'' (Some ''https://hh.ru/search/vacancy?text=python'')
            (fresh ''https://hh.ru/''))"]
    vacancy_id_is_last_segment [of "''https://hh.ru/vacancy''"]
  by (simp add: trailing_slash_run)

section \<open>The result page\<close>

lemma first_seen_Nil: "first_seen [] = []"
  by (simp add: first_seen_def)

lemma first_seen_snoc:
  "first_seen (xs @ [x]) = (if x \<in> set xs then first_seen xs else first_seen xs @ [x])"
  by (simp add: first_seen_def)

lemma set_first_seen: "set (first_seen xs) = set xs"
  by (simp add: first_seen_def)

lemma distinct_first_seen: "distinct (first_seen xs)"
  by (simp add: first_seen_def)

lemma listing_links_Cons: "listing_links (h # hs) = listing_link h @ listing_links hs"
  by (simp add: listing_links_def)

lemma collect_links_step:
  "collect_links d (c # cs) seen acc w =
     (case get_attribute d c ''href'' w of
        (r, w') \<Rightarrow>
          (case listing_link (case r of Inl _ \<Rightarrow> None | Inr h \<Rightarrow> h) of
             [] \<Rightarrow> collect_links d cs seen acc w'
           | clean # _ \<Rightarrow>
               if clean \<notin> seen then collect_links d cs (insert clean seen) (acc @ [clean]) w'
               else collect_links d cs seen acc w'))"
  by (auto simp: listing_link_def resolve_link_def startswith_def contains_def strip_query_def
      hd_split_char Let_def split: prod.splits sum.splits option.splits)

lemma listing_link_cases: "listing_link h = [] \<or> (\<exists>clean. listing_link h = [clean])"
  by (cases h) (simp_all add: listing_link_def)

lemma collect_links_spec:
  "collect_links d cards (set done) (first_seen done) w
     = (first_seen (done @ listing_links (fst (read_hrefs d cards w))),
        snd (read_hrefs d cards w))"
proof (induction cards arbitrary: "done" w)
  case Nil
  show ?case by (simp add: listing_links_def)
next
  case (Cons c cs)
  obtain r w' where g: "get_attribute d c ''href'' w = (r, w')"
    by (cases "get_attribute d c ''href'' w")
  let ?h = "case r of Inl _ \<Rightarrow> None | Inr h \<Rightarrow> h"
  have rd: "fst (read_hrefs d (c # cs) w) = ?h # fst (read_hrefs d cs w')"
    "snd (read_hrefs d (c # cs) w) = snd (read_hrefs d cs w')"
    by (simp_all add: g split: prod.splits)
  from listing_link_cases [of ?h]
  consider (1) "listing_link ?h = []" | (2) clean where "listing_link ?h = [clean]" by blast
  then show ?case
  proof cases
    case 1
    then show ?thesis
      unfolding collect_links_step rd by (simp add: g Cons.IH listing_links_Cons)
  next
    case (2 clean)
    have snoc: "done @ clean # xs = (done @ [clean]) @ xs" for xs by simp
    show ?thesis
    proof (cases "clean \<in> set done")
      case True
      then have "first_seen (done @ [clean]) = first_seen done" "set (done @ [clean]) = set done"
        by (auto simp: first_seen_snoc)
      with Cons.IH [of "done @ [clean]" w'] True 2 show ?thesis
        unfolding collect_links_step rd by (simp add: g listing_links_Cons)
    next
      case False
      then have "first_seen (done @ [clean]) = first_seen done @ [clean]"
        "set (done @ [clean]) = insert clean (set done)"
        by (auto simp: first_seen_snoc)
      with Cons.IH [of "done @ [clean]" w'] False 2 show ?thesis
        unfolding collect_links_step rd by (simp add: g listing_links_Cons)
    qed
  qed
qed

lemma listing_link_normal:
  assumes "l \<in> set (listing_link h)"
  shows "CHR ''?'' \<notin> set l \<and> \<not> prefix ''/vacancy/'' l"
proof -
  from assms obtain href where h: "h = Some href" and l: "l = strip_query (resolve_link href)"
    by (cases h) (auto simp: listing_link_def split: if_splits)
  have q: "CHR ''?'' \<notin> set l"
    unfolding l strip_query_def by (auto dest: set_takeWhileD)
  have "\<not> prefix ''/vacancy/'' l"
  proof (cases "prefix ''/vacancy/'' href")
    case True
    then have "l = strip_query (''https://hh.ru'' @ href)" by (simp add: l resolve_link_def)
    then obtain t where "l = CHR ''h'' # t" by (simp add: strip_query_def)
    then show ?thesis by simp
  next
    case False
    then have "l = takeWhile (\<lambda>c. c \<noteq> CHR ''?'') href"
      by (simp add: l resolve_link_def strip_query_def)
    then have "prefix l href" by (simp add: takeWhile_is_prefix)
    with False show ?thesis by (meson prefix_order.trans)
  qed
  with q show ?thesis by simp
qed

lemma listing_links_normal:
  "l \<in> set (listing_links hs) \<Longrightarrow> CHR ''?'' \<notin> set l \<and> \<not> prefix ''/vacancy/'' l"
  by (auto simp: listing_links_def dest: listing_link_normal)


lemma collect_links_page: "collect_links d cards {} [] w = page_links d cards w"
  using collect_links_spec [of d cards "[]" w] by (simp add: first_seen_Nil page_links_def)

lemma page_links_normal:
  assumes "page_links d cards w = (links, w')"
  shows "distinct links \<and> (\<forall>l \<in> set links. CHR ''?'' \<notin> set l \<and> \<not> startswith l ''/vacancy/'')"
proof -
  from assms have links: "links = first_seen (listing_links (fst (read_hrefs d cards w)))"
    by (simp add: page_links_def)
  have "\<forall>l \<in> set links. CHR ''?'' \<notin> set l \<and> \<not> startswith l ''/vacancy/''"
    unfolding links set_first_seen startswith_def using listing_links_normal by blast
  moreover have "distinct links" unfolding links by (rule distinct_first_seen)
  ultimately show ?thesis by simp
qed

lemma page_links_no_cards: "page_links d [] w = ([], w)"
  by (simp add: page_links_def listing_links_def first_seen_Nil)

text \<open>What the method answers, lookup by lookup.\<close>

lemma get_vacancy_links_primary:
  assumes "wait_present d primary_selector w = (Inr e, w1)"
    and "find_elements d primary_selector w1 = (Inr cards, w2)"
  shows "get_vacancy_links d w = page_links d cards w2"
  using assms
  by (simp add: get_vacancy_links_def find_cards_def try_except_def then_do_def
      collect_links_page)

lemma find_cards_timed_out:
  assumes "primary_times_out d w w1"
  shows "find_cards d w
           = (case find_alternative_cards d alternative_selectors w1 of
                (cards, w') \<Rightarrow> (Inr cards, w'))"
proof -
  obtain r v where p: "wait_present d primary_selector w = (r, v)"
    by (cases "wait_present d primary_selector w")
  show ?thesis
  proof (cases r)
    case (Inl x)
    with assms p have "x = TimeoutException" "v = w1" by (simp_all add: primary_times_out_def)
    with p Inl show ?thesis by (simp add: find_cards_def try_except_def then_do_def)
  next
    case (Inr x)
    obtain r' v' where f: "find_elements d primary_selector v = (r', v')"
      by (cases "find_elements d primary_selector v")
    with assms p Inr have "r' = Inl TimeoutException" "v' = w1"
      by (cases r'; simp add: primary_times_out_def)+
    with p Inr f show ?thesis by (simp add: find_cards_def try_except_def then_do_def)
  qed
qed

lemma find_cards_failed:
  assumes "primary_fails d w w1"
  shows "\<exists>x. find_cards d w = (Inl x, w1)"
proof -
  obtain r v where p: "wait_present d primary_selector w = (r, v)"
    by (cases "wait_present d primary_selector w")
  show ?thesis
  proof (cases r)
    case (Inl x)
    with assms p have "x \<noteq> TimeoutException" "v = w1" by (simp_all add: primary_fails_def)
    with p Inl show ?thesis
      by (simp add: find_cards_def try_except_def then_do_def raise_def)
  next
    case (Inr x)
    obtain r' v' where f: "find_elements d primary_selector v = (r', v')"
      by (cases "find_elements d primary_selector v")
    with assms p Inr obtain y where "r' = Inl y" "y \<noteq> TimeoutException" "v' = w1"
      by (cases r') (simp_all add: primary_fails_def)
    with p Inr f show ?thesis
      by (simp add: find_cards_def try_except_def then_do_def raise_def)
  qed
qed

lemma find_alternative_skip:
  assumes "finds_nothing d selector w w1"
  shows "find_alternative_cards d (selector # selectors) w = find_alternative_cards d selectors w1"
proof -
  obtain r v where f: "find_elements d selector w = (r, v)"
    by (cases "find_elements d selector w")
  with assms show ?thesis by (cases r) (simp_all add: finds_nothing_def)
qed

lemma find_alternative_hit:
  assumes "find_elements d selector w = (Inr cards, w1)" "cards \<noteq> []"
  shows "find_alternative_cards d (selector # selectors) w = (cards, w1)"
  using assms by simp

lemma get_vacancy_links_alternatives:
  assumes "primary_times_out d w w1"
  shows "get_vacancy_links d w
           = (case find_alternative_cards d alternative_selectors w1 of
                (cards, w') \<Rightarrow> page_links d cards w')"
  by (simp add: get_vacancy_links_def find_cards_timed_out [OF assms] collect_links_page
      split: prod.splits)

lemma get_vacancy_links_normal:
  assumes "get_vacancy_links d w = (links, w')"
  shows "distinct links \<and> (\<forall>l \<in> set links. CHR ''?'' \<notin> set l \<and> \<not> startswith l ''/vacancy/'')"
proof -
  obtain r w1 where f: "find_cards d w = (r, w1)" by (cases "find_cards d w")
  show ?thesis
  proof (cases r)
    case (Inl e)
    with assms f have "links = []" by (simp add: get_vacancy_links_def)
    then show ?thesis by simp
  next
    case (Inr cards)
    with assms f have "page_links d cards w1 = (links, w')"
      by (simp add: get_vacancy_links_def collect_links_page)
    then show ?thesis by (rule page_links_normal)
  qed
qed

text \<open>
  Claim C8. \<open>_get_vacancy_links\<close> never raises: it answers a list. The list has no
  element twice, and no element holds a question mark or is still the relative path of a
  listing. What the list is follows from what the browser answers. When the primary
  selector yields cards, the list is made of the normalized listing links these cards
  expose, each once, in the order of their first occurrences. When the primary lookup
  times out, the same holds for the cards of the first alternative selector that finds
  any, the alternatives being asked in order; when no alternative finds a card the list
  is empty. When the primary lookup raises anything else the list is empty.
\<close>

theorem get_vacancy_links_first_seen:
  assumes "get_vacancy_links d w = (links, w')"
  shows "distinct links
       \<and> (\<forall>l \<in> set links. CHR ''?'' \<notin> set l \<and> \<not> startswith l ''/vacancy/'')
       \<and> (\<forall>e w1 cards w2.
             wait_present d primary_selector w = (Inr e, w1)
             \<and> find_elements d primary_selector w1 = (Inr cards, w2)
             \<longrightarrow> (links, w') = page_links d cards w2)
       \<and> (\<forall>w1 cards w2.
             primary_times_out d w w1
             \<and> find_elements d href_selector w1 = (Inr cards, w2) \<and> cards \<noteq> []
             \<longrightarrow> (links, w') = page_links d cards w2)
       \<and> (\<forall>w1 w2 cards w3.
             primary_times_out d w w1 \<and> finds_nothing d href_selector w1 w2
             \<and> find_elements d serp_href_selector w2 = (Inr cards, w3) \<and> cards \<noteq> []
             \<longrightarrow> (links, w') = page_links d cards w3)
       \<and> (\<forall>w1 w2 w3.
             primary_times_out d w w1 \<and> finds_nothing d href_selector w1 w2
             \<and> finds_nothing d serp_href_selector w2 w3
             \<longrightarrow> links = [] \<and> w' = w3)
       \<and> (\<forall>w1. primary_fails d w w1 \<longrightarrow> links = [] \<and> w' = w1)"
proof (intro conjI allI impI)
  from get_vacancy_links_normal [OF assms]
  show "distinct links"
    "\<forall>l \<in> set links. CHR ''?'' \<notin> set l \<and> \<not> startswith l ''/vacancy/''"
    by simp_all
next
  fix e w1 cards w2
  assume "wait_present d primary_selector w = (Inr e, w1)
          \<and> find_elements d primary_selector w1 = (Inr cards, w2)"
  then have "get_vacancy_links d w = page_links d cards w2"
    by (simp add: get_vacancy_links_primary)
  with assms show "(links, w') = page_links d cards w2" by simp
next
  fix w1 cards w2
  assume a: "primary_times_out d w w1
             \<and> find_elements d href_selector w1 = (Inr cards, w2) \<and> cards \<noteq> []"
  then have "find_alternative_cards d alternative_selectors w1 = (cards, w2)"
    unfolding alternative_selectors_def by (simp add: find_alternative_hit)
  moreover from a have "primary_times_out d w w1" by simp
  ultimately have "get_vacancy_links d w = page_links d cards w2"
    by (simp add: get_vacancy_links_alternatives)
  with assms show "(links, w') = page_links d cards w2" by simp
next
  fix w1 w2 cards w3
  assume a: "primary_times_out d w w1 \<and> finds_nothing d href_selector w1 w2
             \<and> find_elements d serp_href_selector w2 = (Inr cards, w3) \<and> cards \<noteq> []"
  then have n: "finds_nothing d href_selector w1 w2"
    and h: "find_elements d serp_href_selector w2 = (Inr cards, w3)" "cards \<noteq> []"
    by simp_all
  have "find_alternative_cards d alternative_selectors w1 = (cards, w3)"
    unfolding alternative_selectors_def find_alternative_skip [OF n]
    by (rule find_alternative_hit [OF h])
  moreover from a have "primary_times_out d w w1" by simp
  ultimately have "get_vacancy_links d w = page_links d cards w3"
    by (simp add: get_vacancy_links_alternatives)
  with assms show "(links, w') = page_links d cards w3" by simp
next
  fix w1 w2 w3
  assume a: "primary_times_out d w w1 \<and> finds_nothing d href_selector w1 w2
             \<and> finds_nothing d serp_href_selector w2 w3"
  then have n: "finds_nothing d href_selector w1 w2"
    and m: "finds_nothing d serp_href_selector w2 w3"
    by simp_all
  have "find_alternative_cards d alternative_selectors w1 = ([], w3)"
    unfolding alternative_selectors_def find_alternative_skip [OF n] find_alternative_skip [OF m]
    by simp
  moreover from a have "primary_times_out d w w1" by simp
  ultimately have "get_vacancy_links d w = ([], w3)"
    by (simp add: get_vacancy_links_alternatives page_links_no_cards)
  with assms show "links = []" and "w' = w3" by simp_all
next
  fix w1
  assume "primary_fails d w w1"
  from find_cards_failed [OF this] obtain x where "find_cards d w = (Inl x, w1)" ..
  then have "get_vacancy_links d w = ([], w1)" by (simp add: get_vacancy_links_def)
  with assms show "links = []" and "w' = w1" by simp_all
qed

lemma listing_page:
  "get_vacancy_links listing_browser ''https://hh.ru/search/vacancy?text=python''
     = ([''https://hh.ru/vacancy/1'', ''https://hh.ru/vacancy/2''],
        ''https://hh.ru/search/vacancy?text=python'')"
  by code_simp

lemma listing_lookups:
  "wait_present listing_browser primary_selector ''https://hh.ru/search/vacancy?text=python''
     = (Inr 0, ''https://hh.ru/search/vacancy?text=python'')"
  "find_elements listing_browser primary_selector ''https://hh.ru/search/vacancy?text=python''
     = (Inr [1, 2, 3, 4], ''https://hh.ru/search/vacancy?text=python'')"
  by code_simp+

lemma fallback_page:
  "get_vacancy_links fallback_browser ''https://hh.ru/search/vacancy?text=python''
     = ([''https://hh.ru/vacancy/1'', ''https://hh.ru/vacancy/2''],
        ''https://hh.ru/search/vacancy?text=python'')"
  by code_simp

lemma fallback_lookups:
  "primary_times_out fallback_browser ''https://hh.ru/search/vacancy?text=python''
     ''https://hh.ru/search/vacancy?text=python''"
  "finds_nothing fallback_browser href_selector ''https://hh.ru/search/vacancy?text=python''
     ''https://hh.ru/search/vacancy?text=python''"
  "find_elements fallback_browser serp_href_selector ''https://hh.ru/search/vacancy?text=python''
     = (Inr [1, 2, 3, 4], ''https://hh.ru/search/vacancy?text=python'')"
  by code_simp+

theorem get_vacancy_links_first_seen_witness:
  "get_vacancy_links listing_browser ''https://hh.ru/search/vacancy?text=python''
     = page_links listing_browser [1, 2, 3, 4] ''https://hh.ru/search/vacancy?text=python''
   \<and> get_vacancy_links fallback_browser ''https://hh.ru/search/vacancy?text=python''
     = page_links fallback_browser [1, 2, 3, 4] ''https://hh.ru/search/vacancy?text=python''
   \<and> fst (get_vacancy_links listing_browser ''https://hh.ru/search/vacancy?text=python'')
     = [''https://hh.ru/vacancy/1'', ''https://hh.ru/vacancy/2'']
   \<and> distinct (fst (get_vacancy_links listing_browser
         ''https://hh.ru/search/vacancy?text=python''))"
proof -
  have a: "([''https://hh.ru/vacancy/1'', ''https://hh.ru/vacancy/2''],
            ''https://hh.ru/search/vacancy?text=python'')
           = page_links listing_browser [1, 2, 3, 4] ''https://hh.ru/search/vacancy?text=python''"
    using get_vacancy_links_first_seen [OF listing_page] listing_lookups by blast
  have b: "([''https://hh.ru/vacancy/1'', ''https://hh.ru/vacancy/2''],
            ''https://hh.ru/search/vacancy?text=python'')
           = page_links fallback_browser [1, 2, 3, 4] ''https://hh.ru/search/vacancy?text=python''"
    using get_vacancy_links_first_seen [OF fallback_page] fallback_lookups by blast
  show ?thesis
    unfolding listing_page fallback_page a [symmetric] b [symmetric] by simp
qed

section \<open>The orchestrator\<close>


lemma process_page_bound:
  "process_page d cfg cur links today s = (today', s') \<Longrightarrow>
     today \<le> today' \<and> today' \<le> max today (max_applications_per_day (settings cfg))"
proof (induction links arbitrary: today s)
  case Nil
  then show ?case by simp
next
  case (Cons url links)
  show ?case
  proof (cases "today \<ge> max_applications_per_day (settings cfg)")
    case True
    with Cons.prems show ?thesis by simp
  next
    case False
    obtain b s1 where a: "apply_to_vacancy d cfg url (Some cur) s = (b, s1)"
      by (cases "apply_to_vacancy d cfg url (Some cur) s")
    with Cons.prems False
    have "process_page d cfg cur links (if b then today + 1 else today) s1 = (today', s')"
      by simp
    from Cons.IH [OF this] False show ?thesis by (auto split: if_splits)
  qed
qed

lemma page_loop_bound:
  "reached (page_loop fuel d cfg today s) = (today', s') \<Longrightarrow>
     today \<le> today' \<and> today' \<le> max today (max_applications_per_day (settings cfg))"
proof (induction fuel arbitrary: today s)
  case 0
  then show ?case by (subst (asm) page_loop.simps) (auto split: if_splits)
next
  case (Suc fuel)
  let ?limit = "max_applications_per_day (settings cfg)"
  show ?case
  proof (cases "today < ?limit")
    case False
    with Suc.prems show ?thesis by (subst (asm) page_loop.simps) simp
  next
    case True
    obtain links w1 where g: "get_vacancy_links d (browser s) = (links, w1)"
      by (cases "get_vacancy_links d (browser s)")
    show ?thesis
    proof (cases "links = []")
      case True
      with Suc.prems \<open>today < ?limit\<close> g show ?thesis
        by (subst (asm) page_loop.simps) simp
    next
      case False
      obtain t2 s2 where p: "process_page d cfg (current_url d w1) links today (s\<lparr>browser := w1\<rparr>) = (t2, s2)"
        by (cases "process_page d cfg (current_url d w1) links today (s\<lparr>browser := w1\<rparr>)")
      from process_page_bound [OF p] have b2: "today \<le> t2" "t2 \<le> max today ?limit" by simp_all
      obtain moved w3 where a: "advance_page d (current_url d w1) (browser s2) = (moved, w3)"
        by (cases "advance_page d (current_url d w1) (browser s2)")
      show ?thesis
      proof (cases "t2 \<ge> ?limit \<or> \<not> moved")
        case True
        with Suc.prems \<open>today < ?limit\<close> g False p a have "today' = t2"
          by (subst (asm) page_loop.simps) (auto simp: Let_def split: if_splits)
        with b2 show ?thesis by simp
      next
        case stop: False
        with Suc.prems \<open>today < ?limit\<close> g False p a
        have "reached (page_loop fuel d cfg t2 (s2\<lparr>browser := w3\<rparr>)) = (today', s')"
          by (subst (asm) page_loop.simps) (auto simp: Let_def split: if_splits)
        from Suc.IH [OF this] b2 show ?thesis by auto
      qed
    qed
  qed
qed

lemma keyword_loop_bound:
  "reached (keyword_loop fuel d cfg kws today s) = (r, today', s') \<Longrightarrow>
     today \<le> today' \<and> today' \<le> max today (max_applications_per_day (settings cfg))"
proof (induction kws arbitrary: today s)
  case Nil
  then show ?case by simp
next
  case (Cons keyword rest)
  let ?limit = "max_applications_per_day (settings cfg)"
  show ?case
  proof (cases "today \<ge> ?limit")
    case True
    with Cons.prems show ?thesis by simp
  next
    case False
    show ?thesis
    proof (cases "build_search_url (filters cfg) (Some keyword)")
      case (Inl e)
      with Cons.prems False show ?thesis by simp
    next
      case (Inr search_url)
      obtain r1 s1 where n: "on_browser (navigate d search_url) s = (r1, s1)"
        by (cases "on_browser (navigate d search_url) s")
      show ?thesis
      proof (cases r1)
        case (Inl e)
        with Cons.prems False Inr n show ?thesis by simp
      next
        case ok: (Inr u)
        obtain t2 s2 where pl: "reached (page_loop fuel d cfg today s1) = (t2, s2)"
          by (cases "reached (page_loop fuel d cfg today s1)")
        from page_loop_bound [OF pl] have b2: "today \<le> t2" "t2 \<le> max today ?limit" by simp_all
        show ?thesis
        proof (cases "page_loop fuel d cfg today s1")
          case (OutOfFuel x)
          with pl have "x = (t2, s2)" by simp
          with Cons.prems False Inr n ok OutOfFuel have "today' = t2" by simp
          with b2 show ?thesis by simp
        next
          case (Finished x)
          with pl have x: "x = (t2, s2)" by simp
          show ?thesis
          proof (cases "t2 \<ge> ?limit")
            case True
            with Cons.prems False Inr n ok Finished x have "today' = t2" by simp
            with b2 show ?thesis by simp
          next
            case go: False
            with Cons.prems False Inr n ok Finished x
            have "reached (keyword_loop fuel d cfg rest t2 s2) = (r, today', s')" by simp
            from Cons.IH [OF this] b2 show ?thesis by auto
          qed
        qed
      qed
    qed
  qed
qed

lemma run_body_bound:
  "reached (run_body fuel d cfg s) = (r, today, s') \<Longrightarrow>
     0 \<le> today \<and> today \<le> max 0 (max_applications_per_day (settings cfg))"
  by (auto simp: run_body_def Let_def split: prod.splits sum.splits if_splits
      dest: keyword_loop_bound)

lemma run_bound:
  "reached (run fuel d cfg s) = (r, today, s') \<Longrightarrow>
     0 \<le> today \<and> today \<le> max 0 (max_applications_per_day (settings cfg))"
proof -
  assume a: "reached (run fuel d cfg s) = (r, today, s')"
  obtain r0 t0 s0 where b: "reached (run_body fuel d cfg s) = (r0, t0, s0)"
    by (cases "reached (run_body fuel d cfg s)")
  have "today = t0"
    using a b
    by (cases "run_body fuel d cfg s")
       (auto simp: run_def split: prod.splits if_splits)
  with run_body_bound [OF b] show ?thesis by simp
qed

text \<open>
  Claim C2, as amended. \<open>applications_today\<close> counts the calls of the listing processor
  that answered \<open>True\<close> (outcome Applied). At the end of every run, and at every point
  where a run is cut, it is at least zero and at most the configured
  \<open>max_applications_per_day\<close> (at most zero for a negative maximum). Calls that end in
  an error do not count against the quota.
\<close>

theorem run_quota:
  "(case reached (run fuel d cfg s) of
      (r, applications_today, s') \<Rightarrow>
        0 \<le> applications_today
        \<and> applications_today \<le> max 0 (max_applications_per_day (settings cfg)))"
  using run_bound [of fuel d cfg s] by (cases "reached (run fuel d cfg s)") simp

lemma busy_run:
  "run 5 busy_browser (demo_config True 1) ((fresh ''about:blank'')\<lparr>driver_set := False\<rparr>)
   = Finished (Inr (), 1,
       \<lparr>applied_count = 1, skipped_count = 0, error_count = 0,
         applied_vacancies = {''1''}, applied_file = [''1''], driver_set = True,
         browser = ''https://hh.ru/search/vacancy?text=python''\<rparr>)"
  by code_simp

theorem run_quota_witness:
  "run 5 busy_browser (demo_config True 1) ((fresh ''about:blank'')\<lparr>driver_set := False\<rparr>)
   = Finished (Inr (), 1,
       \<lparr>applied_count = 1, skipped_count = 0, error_count = 0,
         applied_vacancies = {''1''}, applied_file = [''1''], driver_set = True,
         browser = ''https://hh.ru/search/vacancy?text=python''\<rparr>)
   \<and> (1::int) \<le> max 0 (max_applications_per_day (settings (demo_config True 1)))"
  using run_quota [where fuel = 5 and d = busy_browser and cfg = "demo_config True 1"
      and s = "(fresh ''about:blank'')\<lparr>driver_set := False\<rparr>"]
  by (simp add: busy_run)

text \<open>
  A maximum of one application, a page of two listings without an apply control: both
  calls end in an error, and the run has counted two errors.
\<close>

theorem two_errors_counterexample:
  "run 5 listing_browser (demo_config True 1) ((fresh ''about:blank'')\<lparr>driver_set := False\<rparr>)
   = Finished (Inr (), 0,
       \<lparr>applied_count = 0, skipped_count = 0, error_count = 2,
         applied_vacancies = {}, applied_file = [], driver_set = True,
         browser = ''https://hh.ru/search/vacancy?text=python''\<rparr>)
   \<and> \<not> (2::int) \<le> max_applications_per_day (settings (demo_config True 1))"
  by code_simp

end
